theory Spec2Isabelle
  imports Complex_Main "HOL-Library.Char_ord" "HOL-Library.List_Lexorder"
begin

text \<open>
  The stable-frame extraction script of the repository: the incremental gate
  \<^verbatim>\<open>needsExtraction\<close>, the motion analysis \<^verbatim>\<open>analyzeMotion\<close> with its scorer
  \<^verbatim>\<open>calculateFrameDifference\<close>, the extraction \<^verbatim>\<open>extractStableFrame\<close> with its fallback
  \<^verbatim>\<open>extractSimpleFrame\<close>, and the entry \<^verbatim>\<open>extractVideoThumbnail\<close> with \<^verbatim>\<open>checkFFmpeg\<close> and
  \<^verbatim>\<open>findFirstVideoFile\<close>. The file system and the external engine are explicit: a function
  takes the world it finds and returns the world it leaves, and a promise is a value that is
  pending, resolved or rejected.
\<close>

section \<open>JavaScript values\<close>

text \<open>
  The scripts compute with JavaScript numbers. A number is modelled as \<open>NaN\<close> or an exact
  real: the rounding and the overflow of IEEE doubles are not modelled. The timestamps the
  scripts compute are multiples of \<open>0.5\<close> below \<open>11\<close>, which doubles represent exactly.
\<close>

datatype jsnum = NaN | Num real

fun js_sub :: "jsnum \<Rightarrow> jsnum \<Rightarrow> jsnum" where
  "js_sub (Num a) (Num b) = Num (a - b)"
| "js_sub _ _ = NaN"

fun js_mul :: "jsnum \<Rightarrow> jsnum \<Rightarrow> jsnum" where
  "js_mul (Num a) (Num b) = Num (a * b)"
| "js_mul _ _ = NaN"

text \<open>\<^verbatim>\<open>Math.min\<close>: \<open>NaN\<close> as soon as one argument is \<open>NaN\<close>.\<close>

fun js_min :: "jsnum \<Rightarrow> jsnum \<Rightarrow> jsnum" where
  "js_min (Num a) (Num b) = Num (min a b)"
| "js_min _ _ = NaN"

text \<open>The operator \<^verbatim>\<open><\<close> on numbers: false as soon as one side is \<open>NaN\<close>.\<close>

fun js_lt :: "jsnum \<Rightarrow> jsnum \<Rightarrow> bool" where
  "js_lt (Num a) (Num b) = (a < b)"
| "js_lt _ _ = False"



subsection \<open>Strings\<close>

definition startsWith :: "string \<Rightarrow> string \<Rightarrow> bool" where
  "startsWith s p = (take (length p) s = p)"

definition endsWith :: "string \<Rightarrow> string \<Rightarrow> bool" where
  "endsWith s p = (length p \<le> length s \<and> drop (length s - length p) s = p)"

definition is_digit :: "char \<Rightarrow> bool" where
  "is_digit c = (c \<in> set ''0123456789'')"

definition digit_val :: "char \<Rightarrow> nat" where
  "digit_val c = of_char c - 48"

definition dec_val :: "string \<Rightarrow> nat" where
  "dec_val s = foldl (\<lambda>n c. 10 * n + digit_val c) 0 s"

text \<open>
  \<^verbatim>\<open>parseFloat\<close> on an unsigned decimal without exponent, which is all that the pattern
  of the scorer can capture: the longest prefix \<open>digits [. digits]\<close> is read, and the result
  is \<open>NaN\<close> when that prefix holds no digit (\<^verbatim>\<open>parseFloat(".")\<close>).
\<close>

definition parseFloat :: "string \<Rightarrow> jsnum" where
  "parseFloat s =
     (let ip = takeWhile is_digit s;
          rest = dropWhile is_digit s;
          fp = (case rest of [] \<Rightarrow> [] | c # r \<Rightarrow> if c = CHR ''.'' then takeWhile is_digit r else [])
      in if ip = [] \<and> fp = [] then NaN
         else Num (real (dec_val ip) + real (dec_val fp) / 10 ^ length fp))"

text \<open>
  \<^verbatim>\<open>output.match(/All:([0-9.]+)/)\<close>: the leftmost place where \<^verbatim>\<open>All:\<close> is followed by at
  least one digit or dot; the capture is the longest run of digits and dots there.
\<close>

definition is_ssim_char :: "char \<Rightarrow> bool" where
  "is_ssim_char c = (is_digit c \<or> c = CHR ''.'')"

fun ssim_match :: "string \<Rightarrow> string option" where
  "ssim_match [] = None"
| "ssim_match (c # cs) =
     (if startsWith (c # cs) ''All:'' \<and> takeWhile is_ssim_char (drop 4 (c # cs)) \<noteq> []
      then Some (takeWhile is_ssim_char (drop 4 (c # cs)))
      else ssim_match cs)"

text \<open>
  \<^verbatim>\<open>Number.prototype.toFixed(1)\<close> for a number below \<open>10^21\<close> in absolute value: the integer
  \<open>n\<close> with \<open>n / 10\<close> nearest to the value, the larger one on a tie, printed with one
  decimal; a negative value prints its sign first.
\<close>

definition digit_char :: "nat \<Rightarrow> char" where
  "digit_char n = ''0123456789'' ! (n mod 10)"

function nat_to_string :: "nat \<Rightarrow> string" where
  "nat_to_string n = (if n < 10 then [digit_char n] else nat_to_string (n div 10) @ [digit_char n])"
  by pat_completeness auto
termination
  by (relation "measure id") auto

declare nat_to_string.simps [simp del]

definition toFixed1 :: "real \<Rightarrow> string" where
  "toFixed1 x =
     (let a = \<bar>x\<bar>; n = nat \<lfloor>a * 10 + 1 / 2\<rfloor>
      in (if x < 0 then ''-'' else '''') @ nat_to_string (n div 10) @ ''.'' @ [digit_char n])"

text \<open>\<^verbatim>\<open>s.replace(".", "-")\<close> replaces the first dot only.\<close>

fun replace_dot :: "string \<Rightarrow> string" where
  "replace_dot [] = []"
| "replace_dot (c # cs) = (if c = CHR ''.'' then CHR ''-'' # cs else c # replace_dot cs)"

section \<open>File system\<close>

text \<open>
  The file system is a table from paths to what \<^verbatim>\<open>fs.statSync\<close> returns for them; the
  entries of a directory are the paths of the table one level below it. Paths are the
  strings the scripts build. \<^verbatim>\<open>path.join\<close> is modelled without its normalisation of
  \<^verbatim>\<open>.\<close> and \<^verbatim>\<open>..\<close> segments: it puts one separator between its two arguments.
\<close>

type_synonym path = string

record stats =
  isDirectory :: bool
  mtime :: int

type_synonym filesystem = "(path \<times> stats) list"

datatype js_error = ENOENT path | ENOTDIR path | SpawnError string | ProbeError string | TypeError

definition strip_slash :: "path \<Rightarrow> path" where
  "strip_slash p = rev (dropWhile (\<lambda>c. c = CHR ''/'') (rev p))"

definition path_join :: "path \<Rightarrow> string \<Rightarrow> path" where
  "path_join d f = strip_slash d @ ''/'' @ f"

definition path_dirname :: "path \<Rightarrow> path" where
  "path_dirname p = rev (drop 1 (dropWhile (\<lambda>c. c \<noteq> CHR ''/'') (rev p)))"

definition fs_lookup :: "filesystem \<Rightarrow> path \<Rightarrow> stats option" where
  "fs_lookup fs p = map_of fs (strip_slash p)"

definition existsSync :: "filesystem \<Rightarrow> path \<Rightarrow> bool" where
  "existsSync fs p = (fs_lookup fs p \<noteq> None)"

definition statSync :: "filesystem \<Rightarrow> path \<Rightarrow> js_error + stats" where
  "statSync fs p = (case fs_lookup fs p of None \<Rightarrow> Inl (ENOENT p) | Some s \<Rightarrow> Inr s)"

definition child_name :: "path \<Rightarrow> path \<Rightarrow> string option" where
  "child_name d q =
     (let d' = strip_slash d @ ''/''; r = drop (length d') q
      in if take (length d') q = d' \<and> r \<noteq> [] \<and> CHR ''/'' \<notin> set r then Some r else None)"

definition readdirSync :: "filesystem \<Rightarrow> path \<Rightarrow> js_error + string list" where
  "readdirSync fs d =
     (case fs_lookup fs d of
        None \<Rightarrow> Inl (ENOENT d)
      | Some s \<Rightarrow>
          if isDirectory s then Inr (remdups (List.map_filter (child_name d) (map fst fs)))
          else Inl (ENOTDIR d))"

text \<open>\<^verbatim>\<open>fs.rmSync(p, { recursive: true, force: true })\<close>: the path and all below it go; a
  missing path is no error.\<close>

definition is_under :: "path \<Rightarrow> path \<Rightarrow> bool" where
  "is_under p q = (q = strip_slash p \<or> startsWith q (strip_slash p @ ''/''))"

definition rmSync :: "filesystem \<Rightarrow> path \<Rightarrow> filesystem" where
  "rmSync fs p = filter (\<lambda>e. \<not> is_under p (fst e)) fs"

definition mkdirSync :: "int \<Rightarrow> filesystem \<Rightarrow> path \<Rightarrow> filesystem" where
  "mkdirSync now fs p = (strip_slash p, \<lparr>isDirectory = True, mtime = now\<rparr>) # fs"


definition ensureDirectoryExists :: "int \<Rightarrow> filesystem \<Rightarrow> path \<Rightarrow> filesystem" where
  "ensureDirectoryExists now fs dirPath =
     (if \<not> existsSync fs dirPath then mkdirSync now fs dirPath else fs)"

section \<open>Incremental gate\<close>

definition OUTPUT_BASE_FILENAME :: string where
  "OUTPUT_BASE_FILENAME = ''firstframe''"

definition OUTPUT_DIR :: path where
  "OUTPUT_DIR = ''../src/assets/img/''"

text \<open>The loop of \<^verbatim>\<open>needsExtraction\<close> over the existing frames: the first one that is not
  older than the input ends it with \<open>false\<close>; a failing \<^verbatim>\<open>statSync\<close> throws.\<close>

fun existingFilesLoop :: "filesystem \<Rightarrow> path \<Rightarrow> stats \<Rightarrow> string list \<Rightarrow> js_error + bool" where
  "existingFilesLoop fs outputDir inputStats [] = Inr True"
| "existingFilesLoop fs outputDir inputStats (file # rest) =
     (case statSync fs (path_join outputDir file) of
        Inl e \<Rightarrow> Inl e
      | Inr fileStats \<Rightarrow>
          if mtime inputStats \<le> mtime fileStats then Inr False
          else existingFilesLoop fs outputDir inputStats rest)"

definition existingFilesOf :: "string list \<Rightarrow> string list" where
  "existingFilesOf entries =
     filter (\<lambda>file. startsWith file OUTPUT_BASE_FILENAME \<and> endsWith file ''.webp'') entries"

text \<open>\<^verbatim>\<open>needsExtraction(inputPath, outputDir)\<close> of the stable-frame script.\<close>

definition needsExtraction :: "filesystem \<Rightarrow> path \<Rightarrow> path \<Rightarrow> js_error + bool" where
  "needsExtraction fs inputPath outputDir =
     (if \<not> existsSync fs outputDir then Inr True
      else case readdirSync fs outputDir of
        Inl e \<Rightarrow> Inl e
      | Inr entries \<Rightarrow>
          let existingFiles = existingFilesOf entries
          in if length existingFiles = 0 then Inr True
             else case statSync fs inputPath of
                    Inl e \<Rightarrow> Inl e
                  | Inr inputStats \<Rightarrow> existingFilesLoop fs outputDir inputStats existingFiles)"

text \<open>\<^verbatim>\<open>needsExtraction(inputPath, outputPath)\<close> of the first-frame script, which is also
  \<^verbatim>\<open>needsCompression\<close> and \<^verbatim>\<open>needsConversion\<close> of the other scripts: one output file.\<close>

definition needsExtractionFile :: "filesystem \<Rightarrow> path \<Rightarrow> path \<Rightarrow> js_error + bool" where
  "needsExtractionFile fs inputPath outputPath =
     (if \<not> existsSync fs outputPath then Inr True
      else case statSync fs inputPath of
        Inl e \<Rightarrow> Inl e
      | Inr inputStats \<Rightarrow>
          (case statSync fs outputPath of
             Inl e \<Rightarrow> Inl e
           | Inr outputStats \<Rightarrow> Inr (mtime inputStats > mtime outputStats)))"

section \<open>External engine\<close>

text \<open>
  A spawned process emits \<^verbatim>\<open>close\<close> with its exit code, or \<^verbatim>\<open>error\<close> when it cannot be
  started (Node then emits \<^verbatim>\<open>close\<close> as well), or nothing when it hangs. What the engine
  does is a parameter: for each invocation (the version query, the probe, the sampling, the
  similarity of two frames, the extraction) and the file system it finds, the events, the
  captured output and the file system it leaves. The invocations are recorded with the
  arguments that vary; the fixed scaling and quality arguments are left out. The call of
  \<^verbatim>\<open>spawn\<close> itself does not throw: a process that cannot be started is reported by the
  \<^verbatim>\<open>error\<close> event.
\<close>

datatype child_event = CloseEv int | ErrorEv string

datatype engine_call =
    Version
  | Probe path
  | Sample path real jsnum path
  | Ssim path path
  | Extract path real path

record proc_run =
  events :: "child_event list"
  stdout :: string
  stderr :: string
  fs_after :: filesystem

record videoInfo =
  duration :: jsnum
  width :: int
  height :: int

record env =
  engine :: "engine_call \<Rightarrow> filesystem \<Rightarrow> proc_run"
  parse_probe :: "string \<Rightarrow> videoInfo option"
  script_dir :: path
  clock :: int

record world =
  files :: filesystem
  calls :: "engine_call list"

datatype 'a promise = Pending | Resolved 'a | Rejected js_error

text \<open>A promise settles once: \<^verbatim>\<open>resolve\<close> and \<^verbatim>\<open>reject\<close> on a settled promise do nothing.\<close>

fun resolve :: "'a \<Rightarrow> 'a promise \<Rightarrow> 'a promise" where
  "resolve v Pending = Resolved v"
| "resolve v p = p"

fun reject :: "js_error \<Rightarrow> 'a promise \<Rightarrow> 'a promise" where
  "reject e Pending = Rejected e"
| "reject e p = p"

definition ssimRun :: "env \<Rightarrow> world \<Rightarrow> path \<Rightarrow> path \<Rightarrow> proc_run" where
  "ssimRun env w frame1Path frame2Path = engine env (Ssim frame1Path frame2Path) (files w)"

definition spawn :: "env \<Rightarrow> world \<Rightarrow> engine_call \<Rightarrow> world \<times> proc_run" where
  "spawn env w c =
     (let r = engine env c (files w)
      in (\<lparr>files = fs_after r, calls = calls w @ [c]\<rparr>, r))"

section \<open>Similarity scorer\<close>

fun frameDifference_on :: "string \<Rightarrow> child_event \<Rightarrow> jsnum promise \<Rightarrow> jsnum promise" where
  "frameDifference_on output (CloseEv code) p =
     (case ssim_match output of
        Some ssimMatch \<Rightarrow> resolve (js_sub (Num 1) (parseFloat ssimMatch)) p
      | None \<Rightarrow> resolve (Num 0.5) p)"
| "frameDifference_on output (ErrorEv e) p = resolve (Num 0.5) p"

definition calculateFrameDifference :: "env \<Rightarrow> world \<Rightarrow> path \<Rightarrow> path \<Rightarrow> world \<times> jsnum promise" where
  "calculateFrameDifference env w frame1Path frame2Path =
     (let (w', r) = spawn env w (Ssim frame1Path frame2Path)
      in (w', foldl (\<lambda>p ev. frameDifference_on (stderr r) ev p) Pending (events r)))"


section \<open>Stability selector\<close>

record motionScore =
  timestamp :: real
  score :: jsnum
  frameIndex :: nat

text \<open>
  The scoring loop of \<^verbatim>\<open>analyzeMotion\<close>, from index \<open>i\<close> on. Each \<^verbatim>\<open>await\<close> of the scorer
  either gives a score, or throws when the scorer rejects, or never returns when the scorer
  stays pending.
\<close>

function scoreLoop ::
  "env \<Rightarrow> path \<Rightarrow> real \<Rightarrow> string list \<Rightarrow> nat \<Rightarrow> world \<Rightarrow> motionScore list
     \<Rightarrow> world \<times> (motionScore list) promise" where
  "scoreLoop env tempDir startTime frameFiles i w motionScores =
     (if i < length frameFiles then
        (let prevFrame = path_join tempDir (frameFiles ! (i - 1));
             currFrame = path_join tempDir (frameFiles ! i);
             r = calculateFrameDifference env w prevFrame currFrame
         in case snd r of
              Resolved s \<Rightarrow>
                scoreLoop env tempDir startTime frameFiles (i + 1) (fst r)
                  (motionScores @
                     [\<lparr>timestamp = startTime + real i * 0.5, score = s, frameIndex = i\<rparr>])
            | Rejected e \<Rightarrow> (fst r, Rejected e)
            | Pending \<Rightarrow> (fst r, Pending))
      else (w, Resolved motionScores))"
  by pat_completeness auto
termination
  by (relation "measure (\<lambda>(env, tempDir, startTime, frameFiles, i, w, ms). length frameFiles - i)")
     auto

declare scoreLoop.simps [simp del]

text \<open>\<^verbatim>\<open>motionScores.reduce((min, current) => current.score < min.score ? current : min)\<close>:
  without an initial value, the first element starts the reduction and an empty array throws.\<close>

definition reduceStable :: "motionScore list \<Rightarrow> motionScore option" where
  "reduceStable motionScores =
     (case motionScores of
        [] \<Rightarrow> None
      | m # rest \<Rightarrow>
          Some (foldl (\<lambda>min current. if js_lt (score current) (score min) then current else min)
                  m rest))"

definition frameFilesOf :: "string list \<Rightarrow> string list" where
  "frameFilesOf entries =
     sort (filter (\<lambda>f. startsWith f ''frame_'' \<and> endsWith f ''.jpg'') entries)"

definition removeTemp :: "path \<Rightarrow> world \<Rightarrow> world" where
  "removeTemp tempDir w = w\<lparr>files := rmSync (files w) tempDir\<rparr>"

text \<open>The \<^verbatim>\<open>close\<close> handler of \<^verbatim>\<open>analyzeMotion\<close>.\<close>

definition analyzeMotion_close ::
  "env \<Rightarrow> path \<Rightarrow> real \<Rightarrow> int \<Rightarrow> world \<times> real promise \<Rightarrow> world \<times> real promise" where
  "analyzeMotion_close env tempDir startTime code st =
     (let w = fst st; p = snd st
      in if code = 0 then
           (case readdirSync (files w) tempDir of
              Inl error \<Rightarrow> (removeTemp tempDir w, reject error p)
            | Inr entries \<Rightarrow>
                (let frameFiles = frameFilesOf entries
                 in if length frameFiles < 2
                    then (removeTemp tempDir w, resolve (startTime + 0.5) p)
                    else (let r = scoreLoop env tempDir startTime frameFiles 1 w []
                          in case snd r of
                               Resolved motionScores \<Rightarrow>
                                 (case reduceStable motionScores of
                                    None \<Rightarrow> (removeTemp tempDir (fst r), reject TypeError p)
                                  | Some stableFrame \<Rightarrow>
                                      (removeTemp tempDir (fst r),
                                       resolve (timestamp stableFrame) p))
                             | Rejected error \<Rightarrow> (removeTemp tempDir (fst r), reject error p)
                             | Pending \<Rightarrow> (fst r, p))))
         else (removeTemp tempDir w, resolve (startTime + 1) p))"

text \<open>The \<^verbatim>\<open>error\<close> handler of \<^verbatim>\<open>analyzeMotion\<close>.\<close>

definition analyzeMotion_error ::
  "path \<Rightarrow> string \<Rightarrow> world \<times> real promise \<Rightarrow> world \<times> real promise" where
  "analyzeMotion_error tempDir error st =
     (removeTemp tempDir (fst st), reject (SpawnError error) (snd st))"

fun analyzeMotion_on ::
  "env \<Rightarrow> path \<Rightarrow> real \<Rightarrow> world \<times> real promise \<Rightarrow> child_event \<Rightarrow> world \<times> real promise" where
  "analyzeMotion_on env tempDir startTime st (CloseEv code) =
     analyzeMotion_close env tempDir startTime code st"
| "analyzeMotion_on env tempDir startTime st (ErrorEv error) =
     analyzeMotion_error tempDir error st"

definition tempDirOf :: "env \<Rightarrow> path" where
  "tempDirOf env = path_join (script_dir env) ''temp_frames''"

text \<open>The world and the engine's run when the sampling process has been spawned.\<close>

definition sampleSpawn :: "env \<Rightarrow> world \<Rightarrow> path \<Rightarrow> real \<Rightarrow> jsnum \<Rightarrow> world \<times> proc_run" where
  "sampleSpawn env w inputPath startTime endTime =
     spawn env (w\<lparr>files := ensureDirectoryExists (clock env) (files w) (tempDirOf env)\<rparr>)
       (Sample inputPath startTime (js_sub endTime (Num startTime))
          (path_join (tempDirOf env) ''frame_%03d.jpg''))"

definition sampleWorld :: "env \<Rightarrow> world \<Rightarrow> path \<Rightarrow> real \<Rightarrow> jsnum \<Rightarrow> world" where
  "sampleWorld env w inputPath startTime endTime =
     fst (sampleSpawn env w inputPath startTime endTime)"

definition sampleRun :: "env \<Rightarrow> world \<Rightarrow> path \<Rightarrow> real \<Rightarrow> jsnum \<Rightarrow> proc_run" where
  "sampleRun env w inputPath startTime endTime =
     snd (sampleSpawn env w inputPath startTime endTime)"

text \<open>No path of the file system is the directory or lies below it.\<close>

definition tempGone :: "path \<Rightarrow> filesystem \<Rightarrow> bool" where
  "tempGone tempDir fs = (filter (\<lambda>e. is_under tempDir (fst e)) fs = [])"

text \<open>\<^verbatim>\<open>analyzeMotion(inputPath, startTime, endTime, videoInfo)\<close>; the last argument is
  not used by the source.\<close>

definition analyzeMotion :: "env \<Rightarrow> world \<Rightarrow> path \<Rightarrow> real \<Rightarrow> jsnum \<Rightarrow> world \<times> real promise" where
  "analyzeMotion env w inputPath startTime endTime =
     (let sp = sampleSpawn env w inputPath startTime endTime
      in foldl (analyzeMotion_on env (tempDirOf env) startTime) (fst sp, Pending)
           (events (snd sp)))"

section \<open>Extraction driver\<close>

datatype extract_result = Success string real | Failure

fun stableFrame_on ::
  "filesystem \<Rightarrow> path \<Rightarrow> string \<Rightarrow> real \<Rightarrow> child_event
     \<Rightarrow> extract_result promise \<Rightarrow> extract_result promise" where
  "stableFrame_on fs finalOutputPath outputFilename stableTimestamp (CloseEv code) p =
     (if code = 0 then
        (if existsSync fs finalOutputPath
         then resolve (Success outputFilename stableTimestamp) p
         else resolve Failure p)
      else resolve Failure p)"
| "stableFrame_on fs finalOutputPath outputFilename stableTimestamp (ErrorEv e) p =
     resolve Failure p"

fun simpleFrame_on ::
  "filesystem \<Rightarrow> path \<Rightarrow> string \<Rightarrow> real \<Rightarrow> child_event
     \<Rightarrow> extract_result promise \<Rightarrow> extract_result promise" where
  "simpleFrame_on fs finalOutputPath outputFilename tstamp (CloseEv code) p =
     (if code = 0 \<and> existsSync fs finalOutputPath
      then resolve (Success outputFilename tstamp) p
      else resolve Failure p)"
| "simpleFrame_on fs finalOutputPath outputFilename tstamp (ErrorEv e) p =
     resolve Failure p"

text \<open>\<^verbatim>\<open>extractSimpleFrame(inputPath, outputPath, videoInfo, timestamp)\<close>.\<close>

definition extractSimpleFrame ::
  "env \<Rightarrow> world \<Rightarrow> path \<Rightarrow> path \<Rightarrow> videoInfo \<Rightarrow> real \<Rightarrow> world \<times> extract_result promise" where
  "extractSimpleFrame env w inputPath outputPath videoInfo tstamp =
     (let timestampFormatted = replace_dot (toFixed1 tstamp);
          outputFilename = OUTPUT_BASE_FILENAME @ ''--'' @ timestampFormatted @ ''s.webp'';
          finalOutputPath = path_join (path_dirname outputPath) outputFilename;
          sp = spawn env w (Extract inputPath tstamp finalOutputPath)
      in (fst sp,
          foldl (\<lambda>p ev. simpleFrame_on (files (fst sp)) finalOutputPath outputFilename tstamp ev p)
            Pending (events (snd sp))))"

text \<open>The extraction of \<^verbatim>\<open>extractStableFrame\<close> once the timestamp is selected.\<close>

definition stableExtraction ::
  "env \<Rightarrow> world \<Rightarrow> path \<Rightarrow> path \<Rightarrow> real \<Rightarrow> world \<times> extract_result promise" where
  "stableExtraction env w inputPath outputPath stableTimestamp =
     (let timestampFormatted = replace_dot (toFixed1 stableTimestamp);
          outputFilename = OUTPUT_BASE_FILENAME @ ''--'' @ timestampFormatted @ ''s.webp'';
          finalOutputPath = path_join (path_dirname outputPath) outputFilename;
          sp = spawn env w (Extract inputPath stableTimestamp finalOutputPath)
      in (fst sp,
          foldl (\<lambda>p ev. stableFrame_on (files (fst sp)) finalOutputPath outputFilename
                           stableTimestamp ev p)
            Pending (events (snd sp))))"

definition analysisEndTime :: "videoInfo \<Rightarrow> jsnum" where
  "analysisEndTime videoInfo = js_min (Num 10) (js_mul (duration videoInfo) (Num 0.3))"

text \<open>The selection of \<^verbatim>\<open>extractStableFrame\<close>: the window and the call of
  \<^verbatim>\<open>analyzeMotion\<close>.\<close>

definition selectStableTimestamp :: "env \<Rightarrow> world \<Rightarrow> path \<Rightarrow> videoInfo \<Rightarrow> world \<times> real promise" where
  "selectStableTimestamp env w inputPath videoInfo =
     analyzeMotion env w inputPath 0.5 (analysisEndTime videoInfo)"

text \<open>\<^verbatim>\<open>extractStableFrame(inputPath, outputPath, videoInfo)\<close>: the \<^verbatim>\<open>catch\<close> block is
  entered when the awaited selection rejects.\<close>

definition extractStableFrame ::
  "env \<Rightarrow> world \<Rightarrow> path \<Rightarrow> path \<Rightarrow> videoInfo \<Rightarrow> world \<times> extract_result promise" where
  "extractStableFrame env w inputPath outputPath videoInfo =
     (let sel = selectStableTimestamp env w inputPath videoInfo
      in case snd sel of
           Pending \<Rightarrow> (fst sel, Pending)
         | Rejected error \<Rightarrow> extractSimpleFrame env (fst sel) inputPath outputPath videoInfo 2.0
         | Resolved stableTimestamp \<Rightarrow>
             stableExtraction env (fst sel) inputPath outputPath stableTimestamp)"

section \<open>Pipeline\<close>

fun getVideoInfo_on :: "env \<Rightarrow> string \<Rightarrow> child_event \<Rightarrow> videoInfo promise \<Rightarrow> videoInfo promise" where
  "getVideoInfo_on env output (CloseEv code) p =
     (if code = 0 then
        (case parse_probe env output of
           Some info \<Rightarrow> resolve info p
         | None \<Rightarrow> reject (ProbeError ''Failed to parse video info'') p)
      else reject (ProbeError ''FFprobe failed'') p)"
| "getVideoInfo_on env output (ErrorEv e) p = reject (ProbeError e) p"

definition getVideoInfo :: "env \<Rightarrow> world \<Rightarrow> path \<Rightarrow> world \<times> videoInfo promise" where
  "getVideoInfo env w inputPath =
     (let sp = spawn env w (Probe inputPath)
      in (fst sp, foldl (\<lambda>p ev. getVideoInfo_on env (stdout (snd sp)) ev p) Pending
                    (events (snd sp))))"

text \<open>\<^verbatim>\<open>checkFFmpeg()\<close>: the version query of the engine; it resolves \<open>false\<close> when the
  engine cannot be started and otherwise whether the exit code is 0.\<close>

fun checkFFmpeg_on :: "child_event \<Rightarrow> bool promise \<Rightarrow> bool promise" where
  "checkFFmpeg_on (ErrorEv e) p = resolve False p"
| "checkFFmpeg_on (CloseEv code) p = resolve (code = 0) p"

definition checkFFmpeg :: "env \<Rightarrow> world \<Rightarrow> world \<times> bool promise" where
  "checkFFmpeg env w =
     (let sp = spawn env w Version
      in (fst sp, foldl (\<lambda>p ev. checkFFmpeg_on ev p) Pending (events (snd sp))))"

subsection \<open>The search of the video file\<close>

definition INPUT_DIR :: path where
  "INPUT_DIR = ''./vid''"

definition SUPPORTED_FORMATS :: "string list" where
  "SUPPORTED_FORMATS =
     [''.mp4'', ''.mov'', ''.avi'', ''.mkv'', ''.webm'', ''.m4v'', ''.flv'', ''.wmv'']"

text \<open>\<^verbatim>\<open>toLowerCase\<close> on the letters of ASCII; other bytes are kept.\<close>

definition lower_char :: "char \<Rightarrow> char" where
  "lower_char c =
     (case map_of (zip ''ABCDEFGHIJKLMNOPQRSTUVWXYZ'' ''abcdefghijklmnopqrstuvwxyz'') c of
        Some l \<Rightarrow> l
      | None \<Rightarrow> c)"

definition toLowerCase :: "string \<Rightarrow> string" where
  "toLowerCase s = map lower_char s"

text \<open>\<^verbatim>\<open>path.extname\<close> of a directory entry: from the last dot on, and empty when there is
  no dot or the only dot starts the name.\<close>

definition path_extname :: "string \<Rightarrow> string" where
  "path_extname f =
     (let r = rev (takeWhile (\<lambda>c. c \<noteq> CHR ''.'') (rev f))
      in if CHR ''.'' \<notin> set f \<or> length r + 1 = length f then [] else CHR ''.'' # r)"

text \<open>The first loop of \<^verbatim>\<open>findFirstVideoFile\<close>: the first entry that is a file with a
  supported extension. An entry that is not a directory is a file in this file system.\<close>

fun firstVideoFile :: "filesystem \<Rightarrow> path \<Rightarrow> string list \<Rightarrow> js_error + path option" where
  "firstVideoFile fs dir [] = Inr None"
| "firstVideoFile fs dir (file # rest) =
     (case statSync fs (path_join dir file) of
        Inl e \<Rightarrow> Inl e
      | Inr stat \<Rightarrow>
          if \<not> isDirectory stat \<and> toLowerCase (path_extname file) \<in> set SUPPORTED_FORMATS
          then Inr (Some (path_join dir file))
          else firstVideoFile fs dir rest)"

text \<open>\<^verbatim>\<open>findFirstVideoFile(dir)\<close>: the second loop descends into the subdirectories, in
  the order of the entries, until one of them holds a video file. The descent ends because
  a subdirectory has fewer paths below it than its parent.\<close>

function findFirstVideoFile :: "filesystem \<Rightarrow> path \<Rightarrow> js_error + path option" where
  "findFirstVideoFile fs dir =
     (case readdirSync fs dir of
        Inl e \<Rightarrow> Inl e
      | Inr entries \<Rightarrow>
          (case firstVideoFile fs dir entries of
             Inl e \<Rightarrow> Inl e
           | Inr (Some filePath) \<Rightarrow> Inr (Some filePath)
           | Inr None \<Rightarrow>
               foldl (\<lambda>found file.
                        if found = Inr None then
                          (case statSync fs (path_join dir file) of
                             Inl e \<Rightarrow> Inl e
                           | Inr stat \<Rightarrow>
                               if isDirectory stat then findFirstVideoFile fs (path_join dir file)
                               else Inr None)
                        else found)
                 (Inr None) entries))"
  by pat_completeness auto
termination
proof (relation "measure (\<lambda>(fs, dir).
    length (filter (\<lambda>k. startsWith k (strip_slash dir @ ''/'')) (map fst fs)))", goal_cases)
  case 1
  then show ?case by simp
next
  case (2 fs dir entries x2 found f stat)
  let ?sd = "strip_slash dir" and ?c = "path_join dir f" and ?ks = "map fst fs"
  let ?P = "\<lambda>k. startsWith k (strip_slash ?c @ ''/'')"
  let ?Q = "\<lambda>k. startsWith k (?sd @ ''/'')"
  have e: "entries = remdups (List.map_filter (child_name dir) ?ks)"
    using 2(1) by (auto simp: readdirSync_def split: option.splits if_splits)
  have "\<exists>q\<in>set ?ks. child_name dir q = Some f"
    using 2(4) unfolding e by (force simp: map_filter_def)
  then obtain q where q: "q \<in> set ?ks" "child_name dir q = Some f"
    by blast
  let ?d = "?sd @ ''/''"
  have t: "take (length ?d) q = ?d" and fd: "f = drop (length ?d) q"
    and ne: "f \<noteq> []" and ns: "CHR ''/'' \<notin> set f"
    using q(2) by (auto simp: child_name_def Let_def split: if_splits)
  have "q = take (length ?d) q @ drop (length ?d) q" by simp
  then have "q = ?d @ f" unfolding t fd [symmetric] .
  then have qc: "q = ?c" by (simp add: path_join_def)
  have cs: "strip_slash ?c = ?c"
  proof (cases f rule: rev_cases)
    case Nil
    then show ?thesis using ne by simp
  next
    case (snoc b l)
    then have "l \<noteq> CHR ''/''" using ns by auto
    then show ?thesis
      by (simp add: path_join_def snoc strip_slash_def [of "?sd @ CHR ''/'' # b @ [l]"])
  qed
  have imp: "?P k \<Longrightarrow> ?Q k" for k
  proof -
    assume p: "?P k"
    have "take (length ?d) k = take (length ?d) (take (length (?c @ ''/'')) k)"
      by (simp add: path_join_def min_def)
    also have "\<dots> = take (length ?d) (?c @ ''/'')"
      using p by (simp add: startsWith_def cs)
    also have "\<dots> = ?d"
      by (simp add: path_join_def)
    finally show "?Q k" by (simp add: startsWith_def)
  qed
  have Qc: "?Q ?c" by (simp add: startsWith_def path_join_def)
  have nPc: "\<not> ?P ?c"
  proof
    assume "?P ?c"
    then have "length (take (length (?c @ ''/'')) ?c) = length (?c @ ''/'')"
      by (simp add: startsWith_def cs)
    then show False by simp
  qed
  have "filter ?P (filter ?Q ?ks) = filter ?P ?ks"
    using imp by (auto simp: filter_filter intro: filter_cong)
  moreover have "?c \<in> set (filter ?Q ?ks)"
    using q(1) qc Qc by simp
  then have "length (filter ?P (filter ?Q ?ks)) < length (filter ?Q ?ks)"
    using nPc by (rule length_filter_less)
  ultimately show ?case by simp
qed

declare findFirstVideoFile.simps [simp del]

datatype run_outcome = UpToDate | Completed string real | NoVideo | Exit1 | Hang

text \<open>
  The part of \<^verbatim>\<open>extractVideoThumbnail\<close> that follows the search, for the video file found:
  the output directory, the gate, the probe and the extraction. An exception of the gate
  leaves the function and ends the process with status 1, as a failed probe or extraction
  does.
\<close>

definition extractFoundVideo :: "env \<Rightarrow> world \<Rightarrow> path \<Rightarrow> world \<times> run_outcome" where
  "extractFoundVideo env w videoFile =
     (let w1 = w\<lparr>files := ensureDirectoryExists (clock env) (files w) OUTPUT_DIR\<rparr>
      in case needsExtraction (files w1) videoFile OUTPUT_DIR of
           Inl e \<Rightarrow> (w1, Exit1)
         | Inr False \<Rightarrow> (w1, UpToDate)
         | Inr True \<Rightarrow>
             (let pr = getVideoInfo env w1 videoFile
              in case snd pr of
                   Pending \<Rightarrow> (fst pr, Hang)
                 | Rejected e \<Rightarrow> (fst pr, Exit1)
                 | Resolved videoInfo \<Rightarrow>
                     (let ex = extractStableFrame env (fst pr) videoFile
                                 (path_join OUTPUT_DIR ''temp.webp'') videoInfo
                      in case snd ex of
                           Pending \<Rightarrow> (fst ex, Hang)
                         | Rejected e \<Rightarrow> (fst ex, Exit1)
                         | Resolved Failure \<Rightarrow> (fst ex, Exit1)
                         | Resolved (Success filename ts) \<Rightarrow> (fst ex, Completed filename ts))))"

text \<open>
  \<^verbatim>\<open>extractVideoThumbnail()\<close>: the version query of the engine, the input directory, the
  search of the video file, and then the part above. A missing engine or input directory
  ends the process with status 1, as an exception of the search does; without a video file
  the function returns.
\<close>

definition extractVideoThumbnail :: "env \<Rightarrow> world \<Rightarrow> world \<times> run_outcome" where
  "extractVideoThumbnail env w =
     (let ck = checkFFmpeg env w
      in case snd ck of
           Pending \<Rightarrow> (fst ck, Hang)
         | Rejected e \<Rightarrow> (fst ck, Exit1)
         | Resolved hasFFmpeg \<Rightarrow>
             if \<not> hasFFmpeg then (fst ck, Exit1)
             else if \<not> existsSync (files (fst ck)) INPUT_DIR then (fst ck, Exit1)
             else (case findFirstVideoFile (files (fst ck)) INPUT_DIR of
                     Inl e \<Rightarrow> (fst ck, Exit1)
                   | Inr None \<Rightarrow> (fst ck, NoVideo)
                   | Inr (Some videoFile) \<Rightarrow> extractFoundVideo env (fst ck) videoFile))"

section \<open>Reference definitions\<close>

text \<open>
  The output artifact name as the specification words it: base name, two hyphens, the
  timestamp with one decimal and a hyphen for the decimal point, \<open>s.\<close> and the extension.
\<close>

definition ref_filename :: "real \<Rightarrow> string" where
  "ref_filename t =
     (let n = nat \<lfloor>\<bar>t\<bar> * 10 + 1 / 2\<rfloor>
      in ''firstframe'' @ ''--'' @ (if t < 0 then ''-'' else []) @
         nat_to_string (n div 10) @ ''-'' @ [digit_char n] @ ''s.'' @ ''webp'')"

subsection \<open>The selection as the specification words it\<close>






section \<open>An example run\<close>

text \<open>
  A scripted engine for the examples. Sampling \<^verbatim>\<open>nostart.mp4\<close> cannot start the engine,
  sampling \<^verbatim>\<open>bad.mp4\<close> exits with status 1, sampling \<^verbatim>\<open>gone.mp4\<close> exits with status 0
  and leaves no frame directory, sampling \<^verbatim>\<open>short.mp4\<close> produces one frame and
  sampling any other video produces three frames. The first pair of frames has similarity
  0.25 and the second 0.75. The extraction writes its output at time 300.
\<close>

definition ex_file :: "int \<Rightarrow> stats" where
  "ex_file t = \<lparr>isDirectory = False, mtime = t\<rparr>"

definition ex_quiet :: "child_event list \<Rightarrow> filesystem \<Rightarrow> proc_run" where
  "ex_quiet evs fs = \<lparr>events = evs, stdout = [], stderr = [], fs_after = fs\<rparr>"

definition ex_engine :: "engine_call \<Rightarrow> filesystem \<Rightarrow> proc_run" where
  "ex_engine c fs =
     (case c of
        Version \<Rightarrow> ex_quiet [CloseEv 0] fs
      | Probe p \<Rightarrow> ex_quiet [CloseEv 0] fs
      | Sample i s d out \<Rightarrow>
          if i = ''/p/vid/nostart.mp4''
          then ex_quiet [ErrorEv ''spawn ffmpeg ENOENT'', CloseEv (- 2)] fs
          else if i = ''/p/vid/bad.mp4'' then ex_quiet [CloseEv 1] fs
          else if i = ''/p/vid/gone.mp4'' then ex_quiet [CloseEv 0] (rmSync fs ''/s/temp_frames'')
          else if i = ''/p/vid/short.mp4''
          then ex_quiet [CloseEv 0] ((''/s/temp_frames/frame_001.jpg'', ex_file 200) # fs)
          else ex_quiet [CloseEv 0]
                 ((''/s/temp_frames/frame_002.jpg'', ex_file 200) #
                  (''/s/temp_frames/frame_001.jpg'', ex_file 200) #
                  (''/s/temp_frames/frame_003.jpg'', ex_file 200) # fs)
      | Ssim a b \<Rightarrow>
          if a = ''/s/temp_frames/frame_001.jpg''
          then \<lparr>events = [CloseEv 0], stdout = [],
                 stderr = ''SSIM Y:0.5 All:0.25 (1.2)'', fs_after = fs\<rparr>
          else if a = ''/s/temp_frames/frame_002.jpg''
          then \<lparr>events = [CloseEv 0], stdout = [],
                 stderr = ''SSIM Y:0.9 All:0.75 (6.0)'', fs_after = fs\<rparr>
          else if a = ''/s/missing.jpg''
          then \<lparr>events = [CloseEv 1], stdout = [],
                 stderr = ''No such file or directory'', fs_after = fs\<rparr>
          else ex_quiet [ErrorEv ''spawn ffmpeg ENOENT'', CloseEv (- 2)] fs
      | Extract i t out \<Rightarrow> ex_quiet [CloseEv 0] ((out, ex_file 300) # fs))"

definition ex_info :: videoInfo where
  "ex_info = \<lparr>duration = Num 20, width = 1920, height = 1080\<rparr>"

definition ex_env :: env where
  "ex_env = \<lparr>engine = ex_engine, parse_probe = (\<lambda>s. Some ex_info), script_dir = ''/s'',
             clock = 150\<rparr>"

definition ex_world :: world where
  "ex_world =
     \<lparr>files = [(''/p/vid/a.mp4'', ex_file 100),
               (''../src/assets/img'', \<lparr>isDirectory = True, mtime = 5\<rparr>)],
      calls = []\<rparr>"

text \<open>The engine invocations other than the final extraction.\<close>

fun not_extract :: "engine_call \<Rightarrow> bool" where
  "not_extract (Extract i t outp) = False"
| "not_extract c = True"

text \<open>The modification time of an existing output of the directory, as the loop reads it.\<close>

definition outputMtime :: "filesystem \<Rightarrow> path \<Rightarrow> string \<Rightarrow> int" where
  "outputMtime fs outputDir file =
     (case fs_lookup fs (path_join outputDir file) of Some st \<Rightarrow> mtime st | None \<Rightarrow> 0)"

text \<open>A file system for the gate: a source modified at 100, an older output and an output
  written at 300.\<close>

definition ex_gate_fs :: filesystem where
  "ex_gate_fs =
     [(''/p/vid'', \<lparr>isDirectory = True, mtime = 5\<rparr>),
      (''/p/vid/a.mp4'', ex_file 100),
      (''../src/assets/img'', \<lparr>isDirectory = True, mtime = 5\<rparr>),
      (''../src/assets/img/firstframe--9-0s.webp'', ex_file 50),
      (''../src/assets/img/firstframe--1-5s.webp'', ex_file 300),
      (''../src/assets/img/logo.webp'', ex_file 400)]"

text \<open>
  A world for a whole run: the input directory holds a text file and a subdirectory with
  the video, modified at 100.
\<close>

definition ex_run_world :: world where
  "ex_run_world =
     \<lparr>files = [(''./vid'', \<lparr>isDirectory = True, mtime = 5\<rparr>),
               (''./vid/notes.txt'', ex_file 90),
               (''./vid/reel'', \<lparr>isDirectory = True, mtime = 5\<rparr>),
               (''./vid/reel/showreel.MP4'', ex_file 100),
               (''../src/assets/img'', \<lparr>isDirectory = True, mtime = 5\<rparr>)],
      calls = []\<rparr>"

text \<open>
  An engine whose diagnostic output for the first pair of frames names a file in a directory
  called \<^verbatim>\<open>All:.x\<close> before it reports the similarity 0.5; for the second pair it reports
  the similarity 0.9. It is the scripted engine otherwise.
\<close>

definition ex_path_engine :: "engine_call \<Rightarrow> filesystem \<Rightarrow> proc_run" where
  "ex_path_engine c fs =
     (case c of
        Ssim a b \<Rightarrow>
          if a = ''/s/temp_frames/frame_001.jpg''
          then \<lparr>events = [CloseEv 0], stdout = [],
                 stderr = ''Input #0, image2, from /srv/All:.x/frame_001.jpg: SSIM Y:0.5 All:0.5 (3.0)'',
                 fs_after = fs\<rparr>
          else \<lparr>events = [CloseEv 0], stdout = [],
                 stderr = ''SSIM Y:0.9 All:0.9 (10.0)'', fs_after = fs\<rparr>
      | _ \<Rightarrow> ex_engine c fs)"

definition ex_path_env :: env where
  "ex_path_env = ex_env\<lparr>engine := ex_path_engine\<rparr>"

section \<open>Promises and handlers\<close>

lemma resolve_settled: "p \<noteq> Pending \<Longrightarrow> resolve v p = p"
  by (cases p) simp_all

lemma reject_settled: "p \<noteq> Pending \<Longrightarrow> reject e p = p"
  by (cases p) simp_all

lemma foldl_settled:
  assumes "\<And>q ev. q \<noteq> Pending \<Longrightarrow> h q ev = q" and "p \<noteq> Pending"
  shows "foldl h p es = p"
  using assms by (induction es) simp_all

section \<open>Similarity scorer: results\<close>

lemma frameDifference_on_settled: "p \<noteq> Pending \<Longrightarrow> frameDifference_on out ev p = p"
  by (cases ev) (simp_all add: resolve_settled split: option.splits)

lemma frameDifference_fold_Cons:
  "foldl (\<lambda>p ev. frameDifference_on out ev p) Pending (ev # es) = frameDifference_on out ev Pending"
proof -
  have "frameDifference_on out ev Pending \<noteq> Pending"
    by (cases ev) (simp_all split: option.splits)
  then show ?thesis
    by (simp add: foldl_settled frameDifference_on_settled)
qed

lemma calculateFrameDifference_snd:
  "snd (calculateFrameDifference env w f1 f2) =
     foldl (\<lambda>p ev. frameDifference_on (stderr (ssimRun env w f1 f2)) ev p) Pending
       (events (ssimRun env w f1 f2))"
  by (simp add: calculateFrameDifference_def spawn_def ssimRun_def Let_def)

lemma calculateFrameDifference_first:
  "events (ssimRun env w f1 f2) = ev # es \<Longrightarrow>
   snd (calculateFrameDifference env w f1 f2) =
     frameDifference_on (stderr (ssimRun env w f1 f2)) ev Pending"
  by (simp only: calculateFrameDifference_snd frameDifference_fold_Cons)

lemma calculateFrameDifference_not_Rejected:
  "snd (calculateFrameDifference env w f1 f2) \<noteq> Rejected e"
proof (cases "events (ssimRun env w f1 f2)")
  case Nil
  then show ?thesis by (simp add: calculateFrameDifference_snd)
next
  case (Cons ev es)
  then have "snd (calculateFrameDifference env w f1 f2) =
      frameDifference_on (stderr (ssimRun env w f1 f2)) ev Pending"
    by (rule calculateFrameDifference_first)
  then show ?thesis
    by (cases ev) (simp_all split: option.splits)
qed

text \<open>
  The branches of the scorer. It never rejects. When the engine closes and the pattern
  \<^verbatim>\<open>All:([0-9.]+)\<close> is found in its diagnostic output, the score is one minus what
  \<^verbatim>\<open>parseFloat\<close> reads from the capture; when the pattern is not found, and when the engine
  cannot be started, the score is exactly 0.5. The exit code of the engine plays no role.
\<close>

lemma calculateFrameDifference_branches:
  "(\<forall>e. snd (calculateFrameDifference env w f1 f2) \<noteq> Rejected e) \<and>
   (\<forall>code es ssimMatch.
      events (ssimRun env w f1 f2) = CloseEv code # es \<and>
      ssim_match (stderr (ssimRun env w f1 f2)) = Some ssimMatch \<longrightarrow>
      snd (calculateFrameDifference env w f1 f2) =
        Resolved (js_sub (Num 1) (parseFloat ssimMatch))) \<and>
   (\<forall>code es.
      events (ssimRun env w f1 f2) = CloseEv code # es \<and>
      ssim_match (stderr (ssimRun env w f1 f2)) = None \<longrightarrow>
      snd (calculateFrameDifference env w f1 f2) = Resolved (Num 0.5)) \<and>
   (\<forall>e es.
      events (ssimRun env w f1 f2) = ErrorEv e # es \<longrightarrow>
      snd (calculateFrameDifference env w f1 f2) = Resolved (Num 0.5))"
  using calculateFrameDifference_not_Rejected [of env w f1 f2]
  by (auto dest!: calculateFrameDifference_first)

lemma calculateFrameDifference_examples:
  "snd (calculateFrameDifference ex_env ex_world ''/s/temp_frames/frame_001.jpg''
          ''/s/temp_frames/frame_002.jpg'') = Resolved (Num (3 / 4)) \<and>
   snd (calculateFrameDifference ex_env ex_world ''/s/missing.jpg'' ''/s/other.jpg'') =
     Resolved (Num (1 / 2)) \<and>
   snd (calculateFrameDifference ex_env ex_world ''/s/a.jpg'' ''/s/b.jpg'') =
     Resolved (Num (1 / 2))"
proof -
  let ?f1 = "''/s/temp_frames/frame_001.jpg''" and ?f2 = "''/s/temp_frames/frame_002.jpg''"
  have a1: "events (ssimRun ex_env ex_world ?f1 ?f2) = CloseEv 0 # []"
    by (simp add: ssimRun_def ex_env_def ex_engine_def)
  have a2: "ssim_match (stderr (ssimRun ex_env ex_world ?f1 ?f2)) = Some ''0.25''"
    by (simp add: ssimRun_def ex_env_def ex_engine_def startsWith_def is_ssim_char_def
        is_digit_def)
  have a3: "js_sub (Num 1) (parseFloat ''0.25'') = Num (3 / 4)"
    by (simp add: parseFloat_def is_digit_def dec_val_def digit_val_def)
  have b1: "events (ssimRun ex_env ex_world ''/s/missing.jpg'' ''/s/other.jpg'') = CloseEv 1 # []"
    by (simp add: ssimRun_def ex_env_def ex_engine_def)
  have b2: "ssim_match (stderr (ssimRun ex_env ex_world ''/s/missing.jpg'' ''/s/other.jpg'')) = None"
    by (simp add: ssimRun_def ex_env_def ex_engine_def startsWith_def)
  have c1: "events (ssimRun ex_env ex_world ''/s/a.jpg'' ''/s/b.jpg'') =
      ErrorEv ''spawn ffmpeg ENOENT'' # [CloseEv (- 2)]"
    by (simp add: ssimRun_def ex_env_def ex_engine_def ex_quiet_def)
  show ?thesis
    using calculateFrameDifference_branches [of ex_env ex_world ?f1 ?f2] a1 a2 a3
      calculateFrameDifference_branches [of ex_env ex_world "''/s/missing.jpg''" "''/s/other.jpg''"] b1 b2
      calculateFrameDifference_branches [of ex_env ex_world "''/s/a.jpg''" "''/s/b.jpg''"] c1
    by simp
qed

text \<open>
  Claim C5. The scorer never rejects, and its score is 0.5 when the pattern is not found and
  when the engine cannot be started. When the pattern \<^verbatim>\<open>All:([0-9.]+)\<close> is found, the score is
  one minus \<^verbatim>\<open>parseFloat\<close> of the capture; but the pattern also matches text without a
  digit. In the diagnostic output of \<^const>\<open>ex_path_engine\<close> for the first pair of frames the
  leftmost match is in the name of the directory and captures a lone dot, which
  \<^verbatim>\<open>parseFloat\<close> reads as \<open>NaN\<close>: the scorer resolves with \<open>NaN\<close>, which is neither one
  minus the similarity 0.5 that the output reports nor the neutral score 0.5.
\<close>

theorem scorer_digitless_capture_NaN:
  "events (ssimRun ex_path_env ex_world ''/s/temp_frames/frame_001.jpg''
             ''/s/temp_frames/frame_002.jpg'') = [CloseEv 0] \<and>
   ssim_match (stderr (ssimRun ex_path_env ex_world ''/s/temp_frames/frame_001.jpg''
                         ''/s/temp_frames/frame_002.jpg'')) = Some ''.'' \<and>
   parseFloat ''.'' = NaN \<and>
   snd (calculateFrameDifference ex_path_env ex_world ''/s/temp_frames/frame_001.jpg''
          ''/s/temp_frames/frame_002.jpg'') = Resolved NaN \<and>
   snd (calculateFrameDifference ex_path_env ex_world ''/s/temp_frames/frame_001.jpg''
          ''/s/temp_frames/frame_002.jpg'') \<noteq> Resolved (Num 0.5) \<and>
   snd (calculateFrameDifference ex_path_env ex_world ''/s/temp_frames/frame_001.jpg''
          ''/s/temp_frames/frame_002.jpg'') \<noteq> Resolved (Num (1 - 0.5))"
  by code_simp

section \<open>Formatting the timestamp\<close>

lemma digit_char_in: "digit_char n \<in> set ''0123456789''"
proof -
  have "n mod 10 < length ''0123456789''" by simp
  then show ?thesis unfolding digit_char_def by (rule nth_mem)
qed

lemma nat_to_string_digits: "set (nat_to_string n) \<subseteq> set ''0123456789''"
proof (induction n rule: nat_to_string.induct)
  case (1 n)
  show ?case
  proof (cases "n < 10")
    case True
    then show ?thesis using digit_char_in [of n] by (subst nat_to_string.simps) simp
  next
    case False
    then show ?thesis
      using 1 digit_char_in [of n] by (subst nat_to_string.simps) simp
  qed
qed

lemma replace_dot_append: "CHR ''.'' \<notin> set xs \<Longrightarrow> replace_dot (xs @ CHR ''.'' # ys) = xs @ CHR ''-'' # ys"
  by (induction xs) auto

lemma nat_to_string_no_dot: "CHR ''.'' \<notin> set (nat_to_string n)"
  using nat_to_string_digits [of n] by auto

lemma replace_dot_toFixed1:
  "replace_dot (toFixed1 t) =
     (if t < 0 then ''-'' else '''') @ nat_to_string (nat \<lfloor>\<bar>t\<bar> * 10 + 1 / 2\<rfloor> div 10) @ ''-'' @
       [digit_char (nat \<lfloor>\<bar>t\<bar> * 10 + 1 / 2\<rfloor>)]"
proof -
  have "CHR ''.'' \<notin> set ((if t < 0 then ''-'' else '''') @ nat_to_string (nat \<lfloor>\<bar>t\<bar> * 10 + 1 / 2\<rfloor> div 10))"
    using nat_to_string_no_dot by simp
  from replace_dot_append [OF this] show ?thesis
    by (simp add: toFixed1_def Let_def)
qed


section \<open>File system: removal\<close>

lemma tempGone_rmSync: "tempGone td (rmSync fs td)"
  by (simp add: tempGone_def rmSync_def filter_empty_conv)

lemma tempGone_lookup: "tempGone td fs \<Longrightarrow> fs_lookup fs td = None"
proof -
  assume g: "tempGone td fs"
  have "strip_slash td \<notin> fst ` set fs"
  proof
    assume "strip_slash td \<in> fst ` set fs"
    then obtain e where "e \<in> set fs" "fst e = strip_slash td" by auto
    moreover have "is_under td (strip_slash td)" by (simp add: is_under_def)
    ultimately show False using g by (auto simp: tempGone_def filter_empty_conv)
  qed
  then show ?thesis by (simp add: fs_lookup_def map_of_eq_None_iff)
qed

lemma tempGone_not_exists: "tempGone td fs \<Longrightarrow> \<not> existsSync fs td"
  by (simp add: existsSync_def tempGone_lookup)

lemma tempGone_readdir: "tempGone td fs \<Longrightarrow> readdirSync fs td = Inl (ENOENT td)"
  by (simp add: readdirSync_def tempGone_lookup)

lemma files_removeTemp [simp]: "files (removeTemp td w) = rmSync (files w) td"
  by (simp add: removeTemp_def)

lemma calls_removeTemp [simp]: "calls (removeTemp td w) = calls w"
  by (simp add: removeTemp_def)

section \<open>Motion analysis: handlers\<close>

lemma analyzeMotion_on_settled:
  "snd st \<noteq> Pending \<Longrightarrow> snd (analyzeMotion_on env td s st ev) = snd st"
  by (cases ev)
     (simp_all add: analyzeMotion_close_def analyzeMotion_error_def Let_def
        resolve_settled reject_settled split: sum.splits promise.splits option.splits)

lemma analyzeMotion_fold_settled:
  "snd st \<noteq> Pending \<Longrightarrow> snd (foldl (analyzeMotion_on env td s) st es) = snd st"
  by (induction es arbitrary: st) (simp_all add: analyzeMotion_on_settled)

lemma analyzeMotion_unfold:
  "analyzeMotion env w i s e =
     foldl (analyzeMotion_on env (tempDirOf env) s) (sampleWorld env w i s e, Pending)
       (events (sampleRun env w i s e))"
  by (simp add: analyzeMotion_def sampleWorld_def sampleRun_def Let_def)


text \<open>Once the promise is settled, the temporary directory is gone, and it stays so.\<close>

lemma analyzeMotion_on_gone:
  assumes "snd st \<noteq> Pending \<longrightarrow> tempGone td (files (fst st))"
  shows "snd (analyzeMotion_on env td s st ev) \<noteq> Pending \<longrightarrow>
         tempGone td (files (fst (analyzeMotion_on env td s st ev)))"
proof (cases ev)
  case (ErrorEv x)
  then show ?thesis by (simp add: analyzeMotion_error_def tempGone_rmSync)
next
  case (CloseEv code)
  show ?thesis
  proof (cases "snd st = Pending")
    case True
    then show ?thesis
      using CloseEv
      by (simp add: analyzeMotion_close_def Let_def tempGone_rmSync
          split: sum.splits promise.splits option.splits)
  next
    case False
    then have g: "tempGone td (files (fst st))" using assms by simp
    show ?thesis
      using CloseEv g
      by (simp add: analyzeMotion_close_def Let_def tempGone_rmSync tempGone_readdir)
  qed
qed

lemma analyzeMotion_fold_gone:
  assumes "snd st \<noteq> Pending \<longrightarrow> tempGone td (files (fst st))"
  shows "snd (foldl (analyzeMotion_on env td s) st es) \<noteq> Pending \<longrightarrow>
         tempGone td (files (fst (foldl (analyzeMotion_on env td s) st es)))"
  using assms
proof (induction es arbitrary: st)
  case Nil
  then show ?case by simp
next
  case (Cons ev es)
  show ?case
    using Cons.IH [OF analyzeMotion_on_gone [OF Cons.prems]] by simp
qed

section \<open>Extraction driver: results\<close>

lemma foldl_outcomes:
  assumes "\<And>q ev. h q ev = q \<or> h q ev \<in> S"
  shows "foldl h p es = p \<or> foldl h p es \<in> S"
proof (induction es arbitrary: p)
  case Nil
  then show ?case by simp
next
  case (Cons ev es)
  show ?case using Cons [of "h p ev"] assms [of p ev] by auto
qed

lemma stableFrame_on_outcomes:
  "stableFrame_on fs fp fn t ev q = q \<or>
   stableFrame_on fs fp fn t ev q \<in> {Resolved (Success fn t), Resolved Failure}"
  by (cases ev; cases q) simp_all

lemma simpleFrame_on_outcomes:
  "simpleFrame_on fs fp fn t ev q = q \<or>
   simpleFrame_on fs fp fn t ev q \<in> {Resolved (Success fn t), Resolved Failure}"
  by (cases ev; cases q) simp_all

lemma outputFilename_ref:
  "OUTPUT_BASE_FILENAME @ ''--'' @ replace_dot (toFixed1 t) @ ''s.webp'' = ref_filename t"
  by (simp add: replace_dot_toFixed1 ref_filename_def OUTPUT_BASE_FILENAME_def Let_def)

lemma stableExtraction_calls:
  "calls (fst (stableExtraction env w i outp t)) =
     calls w @ [Extract i t (path_join (path_dirname outp) (ref_filename t))]"
  using outputFilename_ref [of t]
  by (simp add: stableExtraction_def Let_def spawn_def)

lemma extractSimpleFrame_calls:
  "calls (fst (extractSimpleFrame env w i outp vi t)) =
     calls w @ [Extract i t (path_join (path_dirname outp) (ref_filename t))]"
  using outputFilename_ref [of t]
  by (simp add: extractSimpleFrame_def Let_def spawn_def)

lemma stableExtraction_outcomes:
  "snd (stableExtraction env w i outp t) \<in>
     {Pending, Resolved (Success (ref_filename t) t), Resolved Failure}"
proof -
  let ?fn = "OUTPUT_BASE_FILENAME @ ''--'' @ replace_dot (toFixed1 t) @ ''s.webp''"
  let ?fp = "path_join (path_dirname outp) ?fn"
  let ?sp = "spawn env w (Extract i t ?fp)"
  have "snd (stableExtraction env w i outp t) =
      foldl (\<lambda>p ev. stableFrame_on (files (fst ?sp)) ?fp ?fn t ev p) Pending (events (snd ?sp))"
    by (simp add: stableExtraction_def Let_def)
  moreover have "foldl (\<lambda>p ev. stableFrame_on (files (fst ?sp)) ?fp ?fn t ev p) Pending
        (events (snd ?sp)) = Pending \<or>
      foldl (\<lambda>p ev. stableFrame_on (files (fst ?sp)) ?fp ?fn t ev p) Pending (events (snd ?sp))
        \<in> {Resolved (Success ?fn t), Resolved Failure}"
    by (rule foldl_outcomes) (rule stableFrame_on_outcomes)
  ultimately show ?thesis
    using outputFilename_ref [of t] by auto
qed

lemma extractSimpleFrame_outcomes:
  "snd (extractSimpleFrame env w i outp vi t) \<in>
     {Pending, Resolved (Success (ref_filename t) t), Resolved Failure}"
proof -
  let ?fn = "OUTPUT_BASE_FILENAME @ ''--'' @ replace_dot (toFixed1 t) @ ''s.webp''"
  let ?fp = "path_join (path_dirname outp) ?fn"
  let ?sp = "spawn env w (Extract i t ?fp)"
  have "snd (extractSimpleFrame env w i outp vi t) =
      foldl (\<lambda>p ev. simpleFrame_on (files (fst ?sp)) ?fp ?fn t ev p) Pending (events (snd ?sp))"
    by (simp add: extractSimpleFrame_def Let_def)
  moreover have "foldl (\<lambda>p ev. simpleFrame_on (files (fst ?sp)) ?fp ?fn t ev p) Pending
        (events (snd ?sp)) = Pending \<or>
      foldl (\<lambda>p ev. simpleFrame_on (files (fst ?sp)) ?fp ?fn t ev p) Pending (events (snd ?sp))
        \<in> {Resolved (Success ?fn t), Resolved Failure}"
    by (rule foldl_outcomes) (rule simpleFrame_on_outcomes)
  ultimately show ?thesis
    using outputFilename_ref [of t] by auto
qed

text \<open>
  Claim C8. For every selected timestamp \<open>t\<close>, the extraction of the motion-analysis path
  and the extraction of the simple fallback path both invoke the engine on the file named
  base name, two hyphens, \<open>t\<close> with one decimal and a hyphen for the decimal point,
  \<open>s.webp\<close>, next to the given output path, and a successful result carries that name and
  \<open>t\<close>. For \<open>t = 4.2\<close> the name is \<^verbatim>\<open>firstframe--4-2s.webp\<close>. The timestamp is taken
  below \<open>10^21\<close>, where \<^verbatim>\<open>toFixed\<close> prints decimals; the selected timestamps are at most
  10.5.
\<close>

theorem output_filename_format:
  assumes "\<bar>t\<bar> < 10 ^ 21"
  shows "calls (fst (stableExtraction env w i outp t)) =
     calls w @ [Extract i t (path_join (path_dirname outp) (ref_filename t))] \<and>
   calls (fst (extractSimpleFrame env w i outp vi t)) =
     calls w @ [Extract i t (path_join (path_dirname outp) (ref_filename t))] \<and>
   (\<forall>fn ts. snd (stableExtraction env w i outp t) = Resolved (Success fn ts) \<longrightarrow>
      fn = ref_filename t \<and> ts = t) \<and>
   (\<forall>fn ts. snd (extractSimpleFrame env w i outp vi t) = Resolved (Success fn ts) \<longrightarrow>
      fn = ref_filename t \<and> ts = t) \<and>
   ref_filename 4.2 = ''firstframe--4-2s.webp''"
proof -
  have ex: "ref_filename 4.2 = ''firstframe--4-2s.webp''"
    by (simp add: ref_filename_def nat_to_string.simps digit_char_def)
  show ?thesis
    using stableExtraction_outcomes [of env w i outp t]
      extractSimpleFrame_outcomes [of env w i outp vi t] ex
    by (auto simp: stableExtraction_calls extractSimpleFrame_calls)
qed

theorem output_filename_format_witness:
  "snd (stableExtraction ex_env ex_world ''/p/vid/a.mp4'' ''../src/assets/img/temp.webp'' 4.2) =
     Resolved (Success ''firstframe--4-2s.webp'' 4.2) \<and>
   snd (extractSimpleFrame ex_env ex_world ''/p/vid/a.mp4'' ''../src/assets/img/temp.webp''
          ex_info 2) =
     Resolved (Success ''firstframe--2-0s.webp'' 2) \<and>
   ref_filename 2 = ''firstframe--2-0s.webp''"
proof -
  have a: "snd (stableExtraction ex_env ex_world ''/p/vid/a.mp4'' ''../src/assets/img/temp.webp''
      4.2) = Resolved (Success ''firstframe--4-2s.webp'' 4.2)"
    by code_simp
  have b: "snd (extractSimpleFrame ex_env ex_world ''/p/vid/a.mp4''
      ''../src/assets/img/temp.webp'' ex_info 2) = Resolved (Success ''firstframe--2-0s.webp'' 2)"
    by code_simp
  have c: "\<bar>4.2 :: real\<bar> < 10 ^ 21" and d: "\<bar>2 :: real\<bar> < 10 ^ 21"
    by simp_all
  show ?thesis
    using output_filename_format [OF c, of ex_env ex_world "''/p/vid/a.mp4''"
        "''../src/assets/img/temp.webp''" ex_info]
      output_filename_format [OF d, of ex_env ex_world "''/p/vid/a.mp4''"
        "''../src/assets/img/temp.webp''" ex_info] a b
    by simp
qed

section \<open>Motion analysis: cleanup\<close>

text \<open>
  Claim C7. Whenever one motion-analysis pass returns control to its caller, that is,
  whenever its promise is settled, by a result or by a rejection, the temporary frame
  directory does not exist and no path of the file system lies below it. This covers the
  normal completion, the degenerate burst, a non-zero exit, a failure to start and an
  exception while the frames are read or scored.
\<close>

theorem temp_removed:
  "snd (analyzeMotion env w i s e) \<noteq> Pending \<Longrightarrow>
   tempGone (tempDirOf env) (files (fst (analyzeMotion env w i s e))) \<and>
   \<not> existsSync (files (fst (analyzeMotion env w i s e))) (tempDirOf env)"
  using analyzeMotion_fold_gone [of "(sampleWorld env w i s e, Pending)" "tempDirOf env" env s
      "events (sampleRun env w i s e)"]
  by (simp add: analyzeMotion_unfold tempGone_not_exists)


theorem temp_removed_witness:
  "snd (analyzeMotion ex_env ex_world ''/p/vid/a.mp4'' 0.5 (Num 6)) = Resolved 1.5 \<and>
   tempGone (tempDirOf ex_env)
     (files (fst (analyzeMotion ex_env ex_world ''/p/vid/a.mp4'' 0.5 (Num 6)))) \<and>
   snd (analyzeMotion ex_env ex_world ''/p/vid/nostart.mp4'' 0.5 (Num 6)) =
     Rejected (SpawnError ''spawn ffmpeg ENOENT'') \<and>
   tempGone (tempDirOf ex_env)
     (files (fst (analyzeMotion ex_env ex_world ''/p/vid/nostart.mp4'' 0.5 (Num 6))))"
proof -
  have a: "snd (analyzeMotion ex_env ex_world ''/p/vid/a.mp4'' 0.5 (Num 6)) = Resolved 1.5"
    by code_simp
  have b: "snd (analyzeMotion ex_env ex_world ''/p/vid/nostart.mp4'' 0.5 (Num 6)) =
      Rejected (SpawnError ''spawn ffmpeg ENOENT'')"
    by code_simp
  show ?thesis
    using temp_removed [of ex_env ex_world "''/p/vid/a.mp4''" "0.5" "Num 6"]
      temp_removed [of ex_env ex_world "''/p/vid/nostart.mp4''" "0.5" "Num 6"] a b
    by simp
qed

section \<open>Motion analysis: the first event\<close>

lemma close_nonzero:
  "code \<noteq> 0 \<Longrightarrow>
   analyzeMotion_on env td s (w, Pending) (CloseEv code) = (removeTemp td w, Resolved (s + 1))"
  by (simp add: analyzeMotion_close_def)

lemma close_readdir_fails:
  "readdirSync (files w) td = Inl err \<Longrightarrow>
   analyzeMotion_on env td s (w, Pending) (CloseEv 0) = (removeTemp td w, Rejected err)"
  by (simp add: analyzeMotion_close_def)

lemma close_degenerate:
  "readdirSync (files w) td = Inr entries \<Longrightarrow> length (frameFilesOf entries) < 2 \<Longrightarrow>
   analyzeMotion_on env td s (w, Pending) (CloseEv 0) = (removeTemp td w, Resolved (s + 0.5))"
  by (simp add: analyzeMotion_close_def)

lemma error_event:
  "analyzeMotion_on env td s (w, Pending) (ErrorEv err) =
     (removeTemp td w, Rejected (SpawnError err))"
  by (simp add: analyzeMotion_error_def)

text \<open>Once the directory is gone, later events make no engine call.\<close>

lemma analyzeMotion_on_gone_calls:
  assumes "tempGone td (files (fst st))"
  shows "calls (fst (analyzeMotion_on env td s st ev)) = calls (fst st) \<and>
         tempGone td (files (fst (analyzeMotion_on env td s st ev)))"
  using assms
  by (cases ev)
     (simp_all add: analyzeMotion_close_def analyzeMotion_error_def Let_def tempGone_rmSync
        tempGone_readdir)

lemma analyzeMotion_fold_gone_calls:
  assumes "tempGone td (files (fst st))"
  shows "calls (fst (foldl (analyzeMotion_on env td s) st es)) = calls (fst st)"
  using assms
proof (induction es arbitrary: st)
  case Nil
  then show ?case by simp
next
  case (Cons ev es)
  from analyzeMotion_on_gone_calls [OF Cons.prems, of env s ev]
  show ?case using Cons.IH [of "analyzeMotion_on env td s st ev"] by simp
qed

lemma calls_sampleWorld:
  "calls (sampleWorld env w i s e) =
     calls w @ [Sample i s (js_sub e (Num s)) (path_join (tempDirOf env) ''frame_%03d.jpg'')]"
  by (simp add: sampleWorld_def sampleSpawn_def spawn_def Let_def)

text \<open>When the first event settles the promise after removing the directory.\<close>

lemma analyzeMotion_first_removed:
  assumes ev: "events (sampleRun env w i s e) = ev # es"
    and h: "analyzeMotion_on env (tempDirOf env) s (sampleWorld env w i s e, Pending) ev =
            (removeTemp (tempDirOf env) (sampleWorld env w i s e), p)"
    and p: "p \<noteq> Pending"
  shows "snd (analyzeMotion env w i s e) = p"
    and "calls (fst (analyzeMotion env w i s e)) =
         calls w @ [Sample i s (js_sub e (Num s)) (path_join (tempDirOf env) ''frame_%03d.jpg'')]"
proof -
  let ?td = "tempDirOf env" and ?w = "sampleWorld env w i s e"
  have u: "analyzeMotion env w i s e =
      foldl (analyzeMotion_on env ?td s) (removeTemp ?td ?w, p) es"
    using ev h by (simp add: analyzeMotion_unfold)
  show "snd (analyzeMotion env w i s e) = p"
    using p by (simp add: u analyzeMotion_fold_settled)
  have "tempGone ?td (files (fst (removeTemp ?td ?w, p)))"
    by (simp add: tempGone_rmSync)
  from analyzeMotion_fold_gone_calls [OF this, of env s es]
  show "calls (fst (analyzeMotion env w i s e)) =
         calls w @ [Sample i s (js_sub e (Num s)) (path_join (tempDirOf env) ''frame_%03d.jpg'')]"
    by (simp add: u calls_sampleWorld)
qed

text \<open>
  Claim C4. When the sampling engine exits with status 0 and fewer than two frame files are
  found, the pass resolves with the start time plus 0.5, and the only engine invocation of
  the pass is the sampling itself: the scorer is not invoked.
\<close>

theorem degenerate_burst:
  assumes "events (sampleRun env w i s e) = CloseEv 0 # es"
    and "readdirSync (files (sampleWorld env w i s e)) (tempDirOf env) = Inr entries"
    and "length (frameFilesOf entries) < 2"
  shows "snd (analyzeMotion env w i s e) = Resolved (s + 0.5) \<and>
         calls (fst (analyzeMotion env w i s e)) =
           calls w @ [Sample i s (js_sub e (Num s)) (path_join (tempDirOf env) ''frame_%03d.jpg'')]"
  using analyzeMotion_first_removed [OF assms(1) close_degenerate [OF assms(2,3)]]
  by simp

theorem degenerate_burst_witness:
  "snd (analyzeMotion ex_env ex_world ''/p/vid/short.mp4'' 0.5 (Num 6)) = Resolved 1 \<and>
   calls (fst (analyzeMotion ex_env ex_world ''/p/vid/short.mp4'' 0.5 (Num 6))) =
     [Sample ''/p/vid/short.mp4'' 0.5 (Num 5.5) ''/s/temp_frames/frame_%03d.jpg'']"
proof -
  have a: "events (sampleRun ex_env ex_world ''/p/vid/short.mp4'' 0.5 (Num 6)) = CloseEv 0 # []"
    by code_simp
  have b: "readdirSync (files (sampleWorld ex_env ex_world ''/p/vid/short.mp4'' 0.5 (Num 6)))
      (tempDirOf ex_env) = Inr [''frame_001.jpg'']"
    by code_simp
  have c: "length (frameFilesOf [''frame_001.jpg'']) < 2"
    by code_simp
  have d: "calls ex_world = []" by (simp add: ex_world_def)
  have e: "path_join (tempDirOf ex_env) ''frame_%03d.jpg'' = ''/s/temp_frames/frame_%03d.jpg''"
    by code_simp
  show ?thesis
    using degenerate_burst [OF a b c] d e by simp
qed

section \<open>Stability selector: fallbacks\<close>

lemma selectStableTimestamp_unfold:
  "selectStableTimestamp env w i vi = analyzeMotion env w i 0.5 (analysisEndTime vi)"
  by (simp add: selectStableTimestamp_def)

lemma select_nonzero:
  assumes "events (sampleRun env w i s e) = CloseEv code # es" and "code \<noteq> 0"
  shows "snd (analyzeMotion env w i s e) = Resolved (s + 1)"
    and "calls (fst (analyzeMotion env w i s e)) =
         calls w @ [Sample i s (js_sub e (Num s)) (path_join (tempDirOf env) ''frame_%03d.jpg'')]"
  using analyzeMotion_first_removed [OF assms(1) close_nonzero [OF assms(2)]] by simp_all

lemma select_error:
  assumes "events (sampleRun env w i s e) = ErrorEv err # es"
  shows "snd (analyzeMotion env w i s e) = Rejected (SpawnError err)"
  using analyzeMotion_first_removed(1) [OF assms error_event] by simp

lemma select_readdir_fails:
  assumes "events (sampleRun env w i s e) = CloseEv 0 # es"
    and "readdirSync (files (sampleWorld env w i s e)) (tempDirOf env) = Inl err"
  shows "snd (analyzeMotion env w i s e) = Rejected err"
  using analyzeMotion_first_removed(1) [OF assms(1) close_readdir_fails [OF assms(2)]] by simp

lemma extractStableFrame_Rejected:
  "snd (selectStableTimestamp env w i vi) = Rejected error \<Longrightarrow>
   extractStableFrame env w i outp vi =
     extractSimpleFrame env (fst (selectStableTimestamp env w i vi)) i outp vi 2"
  by (simp add: extractStableFrame_def Let_def)

lemma extractStableFrame_Resolved:
  "snd (selectStableTimestamp env w i vi) = Resolved t \<Longrightarrow>
   extractStableFrame env w i outp vi =
     stableExtraction env (fst (selectStableTimestamp env w i vi)) i outp t"
  by (simp add: extractStableFrame_def Let_def)

lemma extractStableFrame_Pending:
  "snd (selectStableTimestamp env w i vi) = Pending \<Longrightarrow>
   extractStableFrame env w i outp vi = (fst (selectStableTimestamp env w i vi), Pending)"
  by (simp add: extractStableFrame_def Let_def)

lemma ref_filename_2: "ref_filename 2 = ''firstframe--2-0s.webp''"
  by (simp add: ref_filename_def nat_to_string.simps digit_char_def)

lemma extractStableFrame_not_Rejected:
  "snd (extractStableFrame env w i outp vi) \<noteq> Rejected e"
proof (cases "snd (selectStableTimestamp env w i vi)")
  case Pending
  then show ?thesis by (simp add: extractStableFrame_Pending)
next
  case (Resolved t)
  then show ?thesis
    using stableExtraction_outcomes [of env "fst (selectStableTimestamp env w i vi)" i outp t]
    by (auto simp: extractStableFrame_Resolved)
next
  case (Rejected err)
  then show ?thesis
    using extractSimpleFrame_outcomes [of env "fst (selectStableTimestamp env w i vi)" i outp vi 2]
    by (auto simp: extractStableFrame_Rejected)
qed

text \<open>
  Claim C6. When the selection rejects, \<^verbatim>\<open>extractStableFrame\<close> continues as the simple
  extraction at the fixed timestamp 2.0: it invokes the engine once more, on
  \<^verbatim>\<open>firstframe--2-0s.webp\<close>, and returns what that extraction returns; it never rejects.
  The selection rejects when the sampling engine cannot be started and when reading the
  temporary frame directory throws.
\<close>

theorem selection_failure_fallback:
  "(\<forall>error. snd (selectStableTimestamp env w i vi) = Rejected error \<longrightarrow>
      extractStableFrame env w i outp vi =
        extractSimpleFrame env (fst (selectStableTimestamp env w i vi)) i outp vi 2 \<and>
      calls (fst (extractStableFrame env w i outp vi)) =
        calls (fst (selectStableTimestamp env w i vi)) @
          [Extract i 2 (path_join (path_dirname outp) ''firstframe--2-0s.webp'')] \<and>
      snd (extractStableFrame env w i outp vi) \<in>
        {Pending, Resolved (Success ''firstframe--2-0s.webp'' 2), Resolved Failure}) \<and>
   (\<forall>e. snd (extractStableFrame env w i outp vi) \<noteq> Rejected e) \<and>
   (\<forall>err es. events (sampleRun env w i 0.5 (analysisEndTime vi)) = ErrorEv err # es \<longrightarrow>
      snd (selectStableTimestamp env w i vi) = Rejected (SpawnError err)) \<and>
   (\<forall>err es. events (sampleRun env w i 0.5 (analysisEndTime vi)) = CloseEv 0 # es \<and>
      readdirSync (files (sampleWorld env w i 0.5 (analysisEndTime vi))) (tempDirOf env) = Inl err
      \<longrightarrow> snd (selectStableTimestamp env w i vi) = Rejected err)"
proof -
  have a: "snd (selectStableTimestamp env w i vi) = Rejected error \<Longrightarrow>
      extractStableFrame env w i outp vi =
        extractSimpleFrame env (fst (selectStableTimestamp env w i vi)) i outp vi 2 \<and>
      calls (fst (extractStableFrame env w i outp vi)) =
        calls (fst (selectStableTimestamp env w i vi)) @
          [Extract i 2 (path_join (path_dirname outp) ''firstframe--2-0s.webp'')] \<and>
      snd (extractStableFrame env w i outp vi) \<in>
        {Pending, Resolved (Success ''firstframe--2-0s.webp'' 2), Resolved Failure}" for error
    using extractSimpleFrame_outcomes [of env "fst (selectStableTimestamp env w i vi)" i outp vi 2]
      extractSimpleFrame_calls [of env "fst (selectStableTimestamp env w i vi)" i outp vi 2]
    by (simp add: extractStableFrame_Rejected ref_filename_2)
  have b: "snd (extractStableFrame env w i outp vi) \<noteq> Rejected e" for e
    by (rule extractStableFrame_not_Rejected)
  have c: "events (sampleRun env w i 0.5 (analysisEndTime vi)) = ErrorEv err # es \<Longrightarrow>
      snd (selectStableTimestamp env w i vi) = Rejected (SpawnError err)" for err es
    by (simp add: selectStableTimestamp_unfold select_error)
  have d: "events (sampleRun env w i 0.5 (analysisEndTime vi)) = CloseEv 0 # es \<Longrightarrow>
      readdirSync (files (sampleWorld env w i 0.5 (analysisEndTime vi))) (tempDirOf env) = Inl err
      \<Longrightarrow> snd (selectStableTimestamp env w i vi) = Rejected err" for err es
    by (simp add: selectStableTimestamp_unfold select_readdir_fails)
  show ?thesis
    using a b c d by blast
qed

theorem selection_failure_fallback_witness:
  "snd (selectStableTimestamp ex_env ex_world ''/p/vid/nostart.mp4'' ex_info) =
     Rejected (SpawnError ''spawn ffmpeg ENOENT'') \<and>
   snd (selectStableTimestamp ex_env ex_world ''/p/vid/gone.mp4'' ex_info) =
     Rejected (ENOENT ''/s/temp_frames'') \<and>
   snd (extractStableFrame ex_env ex_world ''/p/vid/nostart.mp4'' ''../src/assets/img/temp.webp''
          ex_info) = Resolved (Success ''firstframe--2-0s.webp'' 2) \<and>
   calls (fst (extractStableFrame ex_env ex_world ''/p/vid/nostart.mp4''
                 ''../src/assets/img/temp.webp'' ex_info)) =
     [Sample ''/p/vid/nostart.mp4'' 0.5 (Num 5.5) ''/s/temp_frames/frame_%03d.jpg'',
      Extract ''/p/vid/nostart.mp4'' 2 ''../src/assets/img/firstframe--2-0s.webp'']"
proof -
  have a: "events (sampleRun ex_env ex_world ''/p/vid/nostart.mp4'' 0.5 (analysisEndTime ex_info))
      = ErrorEv ''spawn ffmpeg ENOENT'' # [CloseEv (- 2)]"
    by code_simp
  have b: "events (sampleRun ex_env ex_world ''/p/vid/gone.mp4'' 0.5 (analysisEndTime ex_info))
      = CloseEv 0 # []"
    by code_simp
  have c: "readdirSync
      (files (sampleWorld ex_env ex_world ''/p/vid/gone.mp4'' 0.5 (analysisEndTime ex_info)))
      (tempDirOf ex_env) = Inl (ENOENT ''/s/temp_frames'')"
    by code_simp
  have d: "snd (extractStableFrame ex_env ex_world ''/p/vid/nostart.mp4''
      ''../src/assets/img/temp.webp'' ex_info) = Resolved (Success ''firstframe--2-0s.webp'' 2)"
    by code_simp
  have e: "calls (fst (selectStableTimestamp ex_env ex_world ''/p/vid/nostart.mp4'' ex_info)) =
      [Sample ''/p/vid/nostart.mp4'' 0.5 (Num 5.5) ''/s/temp_frames/frame_%03d.jpg'']"
    by code_simp
  have f: "path_dirname ''../src/assets/img/temp.webp'' = ''../src/assets/img''"
    by code_simp
  have g: "path_join ''../src/assets/img'' ''firstframe--2-0s.webp'' =
      ''../src/assets/img/firstframe--2-0s.webp''"
    by code_simp
  note T1 = selection_failure_fallback [of ex_env ex_world "''/p/vid/nostart.mp4''" ex_info
      "''../src/assets/img/temp.webp''"]
  note T2 = selection_failure_fallback [of ex_env ex_world "''/p/vid/gone.mp4''" ex_info
      "''../src/assets/img/temp.webp''"]
  have r1: "snd (selectStableTimestamp ex_env ex_world ''/p/vid/nostart.mp4'' ex_info) =
      Rejected (SpawnError ''spawn ffmpeg ENOENT'')"
    using T1 a by blast
  have r2: "snd (selectStableTimestamp ex_env ex_world ''/p/vid/gone.mp4'' ex_info) =
      Rejected (ENOENT ''/s/temp_frames'')"
    using T2 b c by blast
  have x: "calls (fst (extractStableFrame ex_env ex_world ''/p/vid/nostart.mp4''
        ''../src/assets/img/temp.webp'' ex_info)) =
      calls (fst (selectStableTimestamp ex_env ex_world ''/p/vid/nostart.mp4'' ex_info)) @
        [Extract ''/p/vid/nostart.mp4'' 2
           (path_join (path_dirname ''../src/assets/img/temp.webp'') ''firstframe--2-0s.webp'')]"
    using T1 r1 by blast
  show ?thesis
    using r1 r2 d by (simp add: x e f g)
qed

text \<open>
  Claim C3, as the code has it. When the sampling engine exits with a non-zero status, the
  selection resolves with the window start plus 1, that is 1.5 seconds, and the pass makes
  no engine invocation but the sampling: no frame is read or scored and nothing is thrown.
  When the sampling engine cannot be started, the selection rejects, and
  \<^verbatim>\<open>extractStableFrame\<close> continues as the simple extraction at 2.0 seconds.
\<close>

theorem sampling_failure_paths:
  "(\<forall>code es. events (sampleRun env w i 0.5 (analysisEndTime vi)) = CloseEv code # es \<and> code \<noteq> 0
      \<longrightarrow> snd (selectStableTimestamp env w i vi) = Resolved (0.5 + 1) \<and>
          calls (fst (selectStableTimestamp env w i vi)) =
            calls w @ [Sample i 0.5 (js_sub (analysisEndTime vi) (Num 0.5))
                         (path_join (tempDirOf env) ''frame_%03d.jpg'')]) \<and>
   (\<forall>err es. events (sampleRun env w i 0.5 (analysisEndTime vi)) = ErrorEv err # es
      \<longrightarrow> snd (selectStableTimestamp env w i vi) = Rejected (SpawnError err) \<and>
          extractStableFrame env w i outp vi =
            extractSimpleFrame env (fst (selectStableTimestamp env w i vi)) i outp vi 2)"
proof -
  have a: "events (sampleRun env w i 0.5 (analysisEndTime vi)) = CloseEv code # es \<Longrightarrow>
      code \<noteq> 0 \<Longrightarrow>
      snd (selectStableTimestamp env w i vi) = Resolved (0.5 + 1) \<and>
      calls (fst (selectStableTimestamp env w i vi)) =
        calls w @ [Sample i 0.5 (js_sub (analysisEndTime vi) (Num 0.5))
                     (path_join (tempDirOf env) ''frame_%03d.jpg'')]" for code es
    using select_nonzero [of env w i "0.5" "analysisEndTime vi" code es]
    by (simp add: selectStableTimestamp_unfold)
  have b: "events (sampleRun env w i 0.5 (analysisEndTime vi)) = ErrorEv err # es \<Longrightarrow>
      snd (selectStableTimestamp env w i vi) = Rejected (SpawnError err) \<and>
      extractStableFrame env w i outp vi =
        extractSimpleFrame env (fst (selectStableTimestamp env w i vi)) i outp vi 2" for err es
    using select_error [of env w i "0.5" "analysisEndTime vi" err es]
      extractStableFrame_Rejected [of env w i vi "SpawnError err" outp]
    by (simp add: selectStableTimestamp_unfold)
  show ?thesis using a b by blast
qed

theorem sampling_failure_paths_witness:
  "snd (selectStableTimestamp ex_env ex_world ''/p/vid/bad.mp4'' ex_info) = Resolved 1.5 \<and>
   snd (selectStableTimestamp ex_env ex_world ''/p/vid/nostart.mp4'' ex_info) =
     Rejected (SpawnError ''spawn ffmpeg ENOENT'')"
proof -
  have a: "events (sampleRun ex_env ex_world ''/p/vid/bad.mp4'' 0.5 (analysisEndTime ex_info)) =
      CloseEv 1 # []"
    by code_simp
  have b: "events (sampleRun ex_env ex_world ''/p/vid/nostart.mp4'' 0.5 (analysisEndTime ex_info))
      = ErrorEv ''spawn ffmpeg ENOENT'' # [CloseEv (- 2)]"
    by code_simp
  note T1 = sampling_failure_paths [of ex_env ex_world "''/p/vid/bad.mp4''" ex_info
      "''../src/assets/img/temp.webp''"]
  note T2 = sampling_failure_paths [of ex_env ex_world "''/p/vid/nostart.mp4''" ex_info
      "''../src/assets/img/temp.webp''"]
  have r1: "snd (selectStableTimestamp ex_env ex_world ''/p/vid/bad.mp4'' ex_info) =
      Resolved (0.5 + 1)"
    using T1 a by force
  have r2: "snd (selectStableTimestamp ex_env ex_world ''/p/vid/nostart.mp4'' ex_info) =
      Rejected (SpawnError ''spawn ffmpeg ENOENT'')"
    using T2 b by blast
  show ?thesis using r1 r2 by simp
qed

text \<open>
  The selection does not return the degenerate-burst timestamp \<open>0.5 + 0.5\<close> on these paths:
  with an engine that exits with status 1 it resolves with 1.5, and with an engine that
  cannot be started it rejects.
\<close>

theorem sampling_failure_not_degenerate_counterexample:
  "events (sampleRun ex_env ex_world ''/p/vid/bad.mp4'' 0.5 (analysisEndTime ex_info)) =
     [CloseEv 1] \<and>
   snd (selectStableTimestamp ex_env ex_world ''/p/vid/bad.mp4'' ex_info) = Resolved 1.5 \<and>
   snd (selectStableTimestamp ex_env ex_world ''/p/vid/bad.mp4'' ex_info) \<noteq>
     Resolved (0.5 + 0.5) \<and>
   events (sampleRun ex_env ex_world ''/p/vid/nostart.mp4'' 0.5 (analysisEndTime ex_info)) =
     [ErrorEv ''spawn ffmpeg ENOENT'', CloseEv (- 2)] \<and>
   snd (selectStableTimestamp ex_env ex_world ''/p/vid/nostart.mp4'' ex_info) =
     Rejected (SpawnError ''spawn ffmpeg ENOENT'') \<and>
   snd (selectStableTimestamp ex_env ex_world ''/p/vid/nostart.mp4'' ex_info) \<noteq>
     Resolved (0.5 + 0.5)"
  by code_simp

section \<open>Scoring loop\<close>

lemma calculateFrameDifference_calls:
  "calls (fst (calculateFrameDifference env w a b)) = calls w @ [Ssim a b]"
  by (simp add: calculateFrameDifference_def spawn_def Let_def)

lemma scoreLoop_timestamps:
  "snd (scoreLoop env td s ff i w acc) = Resolved ms \<Longrightarrow> 1 \<le> i \<Longrightarrow>
   (\<forall>m\<in>set acc. s + 0.5 \<le> timestamp m) \<Longrightarrow> (\<forall>m\<in>set ms. s + 0.5 \<le> timestamp m)"
proof (induction env td s ff i w acc rule: scoreLoop.induct)
  case (1 env td s ff i w acc)
  show ?case
  proof (cases "i < length ff")
    case False
    then show ?thesis using "1.prems" by (simp add: scoreLoop.simps)
  next
    case True
    let ?r = "calculateFrameDifference env w (path_join td (ff ! (i - 1))) (path_join td (ff ! i))"
    show ?thesis
    proof (cases "snd ?r")
      case Pending
      then show ?thesis using "1.prems" True by (simp add: scoreLoop.simps [of env td s ff i])
    next
      case (Rejected e)
      then show ?thesis using "1.prems" True by (simp add: scoreLoop.simps [of env td s ff i])
    next
      case (Resolved sc)
      let ?acc = "acc @ [\<lparr>timestamp = s + real i * 0.5, score = sc, frameIndex = i\<rparr>]"
      have eq: "scoreLoop env td s ff i w acc = scoreLoop env td s ff (i + 1) (fst ?r) ?acc"
        using True Resolved by (simp add: scoreLoop.simps [of env td s ff i] Let_def)
      have "real i \<ge> 1" using "1.prems"(2) by simp
      then have acc: "\<forall>m\<in>set ?acc. s + 0.5 \<le> timestamp m"
        using "1.prems"(3) by auto
      show ?thesis
        using "1.IH" [OF True refl refl refl Resolved _ _ acc] "1.prems"(1,2) eq
        by simp
    qed
  qed
qed

lemma scoreLoop_calls:
  "list_all not_extract (drop (length (calls w)) (calls (fst (scoreLoop env td s ff i w acc)))) \<and>
   take (length (calls w)) (calls (fst (scoreLoop env td s ff i w acc))) = calls w"
proof (induction env td s ff i w acc rule: scoreLoop.induct)
  case (1 env td s ff i w acc)
  show ?case
  proof (cases "i < length ff")
    case False
    then show ?thesis by (simp add: scoreLoop.simps)
  next
    case True
    let ?r = "calculateFrameDifference env w (path_join td (ff ! (i - 1))) (path_join td (ff ! i))"
    have c: "calls (fst ?r) = calls w @ [Ssim (path_join td (ff ! (i - 1))) (path_join td (ff ! i))]"
      by (rule calculateFrameDifference_calls)
    show ?thesis
    proof (cases "snd ?r")
      case Pending
      then show ?thesis using True c by (simp add: scoreLoop.simps [of env td s ff i] Let_def)
    next
      case (Rejected e)
      then show ?thesis using True c by (simp add: scoreLoop.simps [of env td s ff i] Let_def)
    next
      case (Resolved sc)
      let ?acc = "acc @ [\<lparr>timestamp = s + real i * 0.5, score = sc, frameIndex = i\<rparr>]"
      let ?res = "scoreLoop env td s ff (i + 1) (fst ?r) ?acc"
      have eq: "scoreLoop env td s ff i w acc = ?res"
        using True Resolved by (simp add: scoreLoop.simps [of env td s ff i] Let_def)
      have ih: "list_all not_extract (drop (length (calls (fst ?r))) (calls (fst ?res))) \<and>
          take (length (calls (fst ?r))) (calls (fst ?res)) = calls (fst ?r)"
        using "1.IH" [OF True refl refl refl Resolved] by simp
      obtain rest where rest: "calls (fst ?res) = calls (fst ?r) @ rest"
        and ne: "list_all not_extract rest"
        using ih by (metis append_take_drop_id)
      show ?thesis
        unfolding eq using rest ne c by simp
    qed
  qed
qed

section \<open>Selected timestamps\<close>

lemma scoreLoop_calls_ex:
  "\<exists>cs. calls (fst (scoreLoop env td s ff i w acc)) = calls w @ cs \<and> list_all not_extract cs"
  using scoreLoop_calls [of w env td s ff i acc]
  by (metis append_take_drop_id)

lemma reduce_fold_mem:
  "foldl (\<lambda>min current. if js_lt (score current) (score min) then current else min) m rest
     \<in> set (m # rest)"
proof (induction rest arbitrary: m)
  case Nil
  then show ?case by simp
next
  case (Cons a rest)
  show ?case
    using Cons [of "if js_lt (score a) (score m) then a else m"]
    by (auto split: if_splits)
qed

lemma reduceStable_mem: "reduceStable ms = Some m \<Longrightarrow> m \<in> set ms"
  using reduce_fold_mem by (auto simp: reduceStable_def split: list.splits)

lemma analyzeMotion_on_bound:
  assumes "snd st = Pending" and "snd (analyzeMotion_on env td s st ev) = Resolved t"
  shows "s + 0.5 \<le> t"
proof (cases ev)
  case (ErrorEv err)
  then show ?thesis using assms by (simp add: analyzeMotion_error_def)
next
  case (CloseEv code)
  show ?thesis
  proof (cases "code = 0")
    case False
    then show ?thesis using assms CloseEv by (simp add: analyzeMotion_close_def)
  next
    case True
    show ?thesis
    proof (cases "readdirSync (files (fst st)) td")
      case (Inl err)
      then show ?thesis using assms CloseEv True by (simp add: analyzeMotion_close_def)
    next
      case (Inr entries)
      show ?thesis
      proof (cases "length (frameFilesOf entries) < 2")
        case True
        then show ?thesis using assms CloseEv \<open>code = 0\<close> Inr
          by (simp add: analyzeMotion_close_def)
      next
        case False
        let ?r = "scoreLoop env td s (frameFilesOf entries) 1 (fst st) []"
        show ?thesis
        proof (cases "snd ?r")
          case Pending
          then show ?thesis using assms CloseEv \<open>code = 0\<close> Inr False
            by (simp add: analyzeMotion_close_def Let_def)
        next
          case (Rejected err)
          then show ?thesis using assms CloseEv \<open>code = 0\<close> Inr False
            by (simp add: analyzeMotion_close_def Let_def)
        next
          case (Resolved ms)
          have b: "\<forall>m\<in>set ms. s + 0.5 \<le> timestamp m"
            using scoreLoop_timestamps [OF Resolved] by simp
          show ?thesis
          proof (cases "reduceStable ms")
            case None
            then show ?thesis using assms CloseEv \<open>code = 0\<close> Inr False Resolved
              by (simp add: analyzeMotion_close_def Let_def)
          next
            case (Some m)
            then have "t = timestamp m"
              using assms CloseEv \<open>code = 0\<close> Inr False Resolved
              by (simp add: analyzeMotion_close_def Let_def)
            then show ?thesis using b reduceStable_mem [OF Some] by simp
          qed
        qed
      qed
    qed
  qed
qed

lemma analyzeMotion_fold_bound:
  assumes "\<forall>t. snd st = Resolved t \<longrightarrow> s + 0.5 \<le> t"
  shows "\<forall>t. snd (foldl (analyzeMotion_on env td s) st es) = Resolved t \<longrightarrow> s + 0.5 \<le> t"
  using assms
proof (induction es arbitrary: st)
  case Nil
  then show ?case by simp
next
  case (Cons ev es)
  have "\<forall>t. snd (analyzeMotion_on env td s st ev) = Resolved t \<longrightarrow> s + 0.5 \<le> t"
  proof (cases "snd st = Pending")
    case True
    then show ?thesis using analyzeMotion_on_bound by blast
  next
    case False
    then show ?thesis using Cons.prems by (simp add: analyzeMotion_on_settled)
  qed
  from Cons.IH [OF this] show ?case by simp
qed

lemma analyzeMotion_bound:
  "snd (analyzeMotion env w i s e) = Resolved t \<Longrightarrow> s + 0.5 \<le> t"
  using analyzeMotion_fold_bound [of "(sampleWorld env w i s e, Pending)" s env "tempDirOf env"
      "events (sampleRun env w i s e)"]
  by (simp add: analyzeMotion_unfold)

lemma analyzeMotion_on_calls:
  "\<exists>cs. calls (fst (analyzeMotion_on env td s st ev)) = calls (fst st) @ cs \<and>
        list_all not_extract cs"
proof (cases ev)
  case (ErrorEv err)
  then show ?thesis by (simp add: analyzeMotion_error_def)
next
  case (CloseEv code)
  obtain cs where cs: "\<And>ff. calls (fst (scoreLoop env td s ff 1 (fst st) [])) =
      calls (fst st) @ cs ff \<and> list_all not_extract (cs ff)"
    using scoreLoop_calls_ex [of env td s _ 1 "fst st" "[]"] by metis
  show ?thesis
    using CloseEv cs
    by (auto simp: analyzeMotion_close_def Let_def
        split: sum.splits promise.splits option.splits)
qed

lemma analyzeMotion_fold_calls:
  "\<exists>cs. calls (fst (foldl (analyzeMotion_on env td s) st es)) = calls (fst st) @ cs \<and>
        list_all not_extract cs"
proof (induction es arbitrary: st)
  case Nil
  then show ?case by simp
next
  case (Cons ev es)
  obtain c1 where c1: "calls (fst (analyzeMotion_on env td s st ev)) = calls (fst st) @ c1"
      "list_all not_extract c1"
    using analyzeMotion_on_calls by blast
  obtain c2 where c2: "calls (fst (foldl (analyzeMotion_on env td s)
        (analyzeMotion_on env td s st ev) es)) =
      calls (fst (analyzeMotion_on env td s st ev)) @ c2" "list_all not_extract c2"
    using Cons [of "analyzeMotion_on env td s st ev"] by blast
  show ?case
    using c1 c2 by (intro exI [of _ "c1 @ c2"]) simp
qed

lemma analyzeMotion_calls:
  "\<exists>cs. calls (fst (analyzeMotion env w i s e)) = calls w @ cs \<and> list_all not_extract cs"
proof -
  obtain cs where "calls (fst (analyzeMotion env w i s e)) = calls (sampleWorld env w i s e) @ cs"
      "list_all not_extract cs"
    using analyzeMotion_fold_calls [of env "tempDirOf env" s "(sampleWorld env w i s e, Pending)"
        "events (sampleRun env w i s e)"]
    by (auto simp: analyzeMotion_unfold)
  then show ?thesis
    by (intro exI [of _ "Sample i s (js_sub e (Num s)) (path_join (tempDirOf env) ''frame_%03d.jpg'') # cs"])
       (simp add: calls_sampleWorld)
qed

text \<open>
  Claim C10. Every timestamp a motion-analysis pass resolves with is at least its start
  time plus 0.5. The selector passes the start time 0.5 and falls back to 2.0 on a
  rejection, so every successful thumbnail of \<^verbatim>\<open>extractStableFrame\<close> carries a timestamp of
  at least one second, and every extraction it asks of the engine seeks to at least one
  second.
\<close>

theorem timestamp_at_least_one:
  "(\<forall>t. snd (analyzeMotion env w i s e) = Resolved t \<longrightarrow> s + 0.5 \<le> t) \<and>
   (\<forall>fn ts. snd (extractStableFrame env w i outp vi) = Resolved (Success fn ts) \<longrightarrow> 1 \<le> ts) \<and>
   (\<forall>i' t' o'. Extract i' t' o' \<in> set (calls (fst (extractStableFrame env w i outp vi))) \<longrightarrow>
      Extract i' t' o' \<in> set (calls w) \<or> 1 \<le> t')"
proof -
  let ?sel = "selectStableTimestamp env w i vi"
  obtain cs where cs: "calls (fst ?sel) = calls w @ cs" "list_all not_extract cs"
    using analyzeMotion_calls [of env w i "0.5" "analysisEndTime vi"]
    by (auto simp: selectStableTimestamp_unfold)
  have ne: "Extract i' t' o' \<notin> set cs" for i' t' o'
    using cs(2) by (auto simp: list_all_iff)
  have a: "snd (analyzeMotion env w i s e) = Resolved t \<Longrightarrow> s + 0.5 \<le> t" for t
    by (rule analyzeMotion_bound)
  have b: "(\<forall>fn ts. snd (extractStableFrame env w i outp vi) = Resolved (Success fn ts) \<longrightarrow> 1 \<le> ts) \<and>
   (\<forall>i' t' o'. Extract i' t' o' \<in> set (calls (fst (extractStableFrame env w i outp vi))) \<longrightarrow>
      Extract i' t' o' \<in> set (calls w) \<or> 1 \<le> t')"
  proof (cases "snd ?sel")
    case Pending
    then show ?thesis using cs(1) ne by (auto simp: extractStableFrame_Pending)
  next
    case (Rejected err)
    then show ?thesis
      using extractSimpleFrame_outcomes [of env "fst ?sel" i outp vi 2] cs(1) ne
      by (auto simp: extractStableFrame_Rejected extractSimpleFrame_calls)
  next
    case (Resolved t)
    then have "1 \<le> t"
      using analyzeMotion_bound [of env w i "0.5" "analysisEndTime vi" t]
      by (simp add: selectStableTimestamp_unfold)
    then show ?thesis
      using Resolved stableExtraction_outcomes [of env "fst ?sel" i outp t] cs(1) ne
      by (auto simp: extractStableFrame_Resolved stableExtraction_calls)
  qed
  show ?thesis using a b by blast
qed

theorem timestamp_at_least_one_witness:
  "snd (analyzeMotion ex_env ex_world ''/p/vid/a.mp4'' 0.5 (analysisEndTime ex_info)) =
     Resolved 1.5 \<and>
   snd (extractStableFrame ex_env ex_world ''/p/vid/a.mp4'' ''../src/assets/img/temp.webp''
          ex_info) = Resolved (Success ''firstframe--1-5s.webp'' 1.5) \<and>
   Extract ''/p/vid/a.mp4'' 1.5 ''../src/assets/img/firstframe--1-5s.webp'' \<in>
     set (calls (fst (extractStableFrame ex_env ex_world ''/p/vid/a.mp4''
                        ''../src/assets/img/temp.webp'' ex_info))) \<and>
   (0.5 :: real) + 0.5 \<le> 1.5 \<and> (1 :: real) \<le> 1.5"
proof -
  have a: "snd (analyzeMotion ex_env ex_world ''/p/vid/a.mp4'' 0.5 (analysisEndTime ex_info)) =
      Resolved 1.5"
    by code_simp
  have b: "snd (extractStableFrame ex_env ex_world ''/p/vid/a.mp4''
      ''../src/assets/img/temp.webp'' ex_info) = Resolved (Success ''firstframe--1-5s.webp'' 1.5)"
    by code_simp
  have c: "Extract ''/p/vid/a.mp4'' 1.5 ''../src/assets/img/firstframe--1-5s.webp'' \<in>
      set (calls (fst (extractStableFrame ex_env ex_world ''/p/vid/a.mp4''
                        ''../src/assets/img/temp.webp'' ex_info)))"
    by code_simp
  have d: "calls ex_world = []" by (simp add: ex_world_def)
  note T = timestamp_at_least_one [of ex_env ex_world "''/p/vid/a.mp4''" "0.5"
      "analysisEndTime ex_info" "''../src/assets/img/temp.webp''" ex_info]
  have "(0.5 :: real) + 0.5 \<le> 1.5" using T a by blast
  moreover have "(1 :: real) \<le> 1.5" using T b by blast
  ultimately show ?thesis using a b c by simp
qed

section \<open>Incremental gate: verdicts\<close>

lemma strip_slash_snoc: "l \<noteq> CHR ''/'' \<Longrightarrow> strip_slash (ys @ [l]) = ys @ [l]"
  by (simp add: strip_slash_def)

lemma strip_slash_append:
  assumes "r \<noteq> []" and "last r \<noteq> CHR ''/''"
  shows "strip_slash (xs @ r) = xs @ r"
proof (cases r rule: rev_cases)
  case Nil
  then show ?thesis using assms(1) by simp
next
  case (snoc b l)
  then have "l \<noteq> CHR ''/''" using assms(2) by simp
  from strip_slash_snoc [OF this, of "xs @ b"] show ?thesis using snoc by simp
qed

lemma child_name_Some:
  "child_name d q = Some f \<Longrightarrow> q = path_join d f \<and> f \<noteq> [] \<and> CHR ''/'' \<notin> set f"
proof -
  assume a: "child_name d q = Some f"
  let ?d = "strip_slash d @ ''/''"
  have t: "take (length ?d) q = ?d" and f: "f = drop (length ?d) q"
    and ne: "f \<noteq> []" and ns: "CHR ''/'' \<notin> set f"
    using a by (auto simp: child_name_def Let_def split: if_splits)
  have "q = take (length ?d) q @ drop (length ?d) q" by simp
  then have "q = ?d @ f" using t f by metis
  then show ?thesis using ne ns by (simp add: path_join_def)
qed

lemma child_name_join:
  "f \<noteq> [] \<Longrightarrow> CHR ''/'' \<notin> set f \<Longrightarrow> child_name d (path_join d f) = Some f"
  by (simp add: child_name_def path_join_def Let_def)

lemma strip_slash_join:
  assumes "f \<noteq> []" and "CHR ''/'' \<notin> set f"
  shows "strip_slash (path_join d f) = path_join d f"
proof -
  have "last f \<noteq> CHR ''/''" using assms by (metis last_in_set)
  then have "strip_slash ((strip_slash d @ ''/'') @ f) = (strip_slash d @ ''/'') @ f"
    using assms(1) by (rule strip_slash_append [rotated])
  then show ?thesis by (simp add: path_join_def)
qed

lemma readdir_entry:
  assumes "readdirSync fs d = Inr entries"
  shows "f \<in> set entries \<longleftrightarrow>
         f \<noteq> [] \<and> CHR ''/'' \<notin> set f \<and> fs_lookup fs (path_join d f) \<noteq> None"
proof -
  have e: "entries = remdups (List.map_filter (child_name d) (map fst fs))"
    using assms by (auto simp: readdirSync_def split: option.splits if_splits)
  show ?thesis
  proof
    assume "f \<in> set entries"
    then have "\<exists>q\<in>fst ` set fs. child_name d q = Some f"
      by (force simp: e map_filter_def)
    then obtain q where q: "q \<in> fst ` set fs" "child_name d q = Some f"
      by blast
    from child_name_Some [OF q(2)] have c: "q = path_join d f" "f \<noteq> []" "CHR ''/'' \<notin> set f"
      by simp_all
    have "map_of fs (path_join d f) \<noteq> None"
      using q(1) c(1) by (simp add: map_of_eq_None_iff)
    then show "f \<noteq> [] \<and> CHR ''/'' \<notin> set f \<and> fs_lookup fs (path_join d f) \<noteq> None"
      using c by (simp add: fs_lookup_def strip_slash_join)
  next
    assume a: "f \<noteq> [] \<and> CHR ''/'' \<notin> set f \<and> fs_lookup fs (path_join d f) \<noteq> None"
    then have "strip_slash (path_join d f) = path_join d f"
      by (simp add: strip_slash_join)
    then have "path_join d f \<in> fst ` set fs"
      using a by (simp add: fs_lookup_def map_of_eq_None_iff)
    moreover have "child_name d (path_join d f) = Some f"
      using a by (simp add: child_name_join)
    ultimately show "f \<in> set entries"
      by (force simp: e map_filter_def)
  qed
qed

lemma readdir_exists: "readdirSync fs d = Inr entries \<Longrightarrow> existsSync fs d"
  by (auto simp: readdirSync_def existsSync_def split: option.splits)

lemma existingFilesLoop_all:
  "(\<forall>f\<in>set fls. fs_lookup fs (path_join d f) \<noteq> None) \<Longrightarrow>
   existingFilesLoop fs d ist fls = Inr (\<forall>f\<in>set fls. outputMtime fs d f < mtime ist)"
proof (induction fls)
  case Nil
  then show ?case by simp
next
  case (Cons f fls)
  then obtain st where st: "fs_lookup fs (path_join d f) = Some st" by auto
  show ?case
    using Cons st by (auto simp: statSync_def outputMtime_def)
qed

lemma needsExtraction_listed:
  assumes rd: "readdirSync fs d = Inr entries"
    and ne: "existingFilesOf entries \<noteq> []"
    and src: "statSync fs i = Inr ist"
  shows "needsExtraction fs i d =
         Inr (\<forall>f\<in>set (existingFilesOf entries). outputMtime fs d f < mtime ist)"
proof -
  have "\<forall>f\<in>set (existingFilesOf entries). fs_lookup fs (path_join d f) \<noteq> None"
    using readdir_entry [OF rd] by (auto simp: existingFilesOf_def)
  from existingFilesLoop_all [OF this, of ist]
  show ?thesis
    using rd ne src readdir_exists [OF rd] by (simp add: needsExtraction_def Let_def)
qed

text \<open>
  Claim C2. The gate reads the file system and returns a verdict; it returns no new file
  system. With a missing output directory, and with a directory holding no entry that starts
  with the base name and ends with \<^verbatim>\<open>.webp\<close>, the verdict is stale. Otherwise, when the
  source can be read, the verdict is stale exactly when the source is strictly newer than
  every matching output, that is, than the most recently modified one; it is fresh exactly
  when some matching output is at least as new as the source. The one-file gate is stale
  when the output is missing, and otherwise exactly when the source is strictly newer than
  the output.
\<close>

theorem gate_stale_iff:
  "(\<not> existsSync fs outputDir \<longrightarrow> needsExtraction fs inputPath outputDir = Inr True) \<and>
   (\<forall>entries. readdirSync fs outputDir = Inr entries \<and> existingFilesOf entries = [] \<longrightarrow>
      needsExtraction fs inputPath outputDir = Inr True) \<and>
   (\<forall>entries inputStats.
      readdirSync fs outputDir = Inr entries \<and> existingFilesOf entries \<noteq> [] \<and>
      statSync fs inputPath = Inr inputStats \<longrightarrow>
      needsExtraction fs inputPath outputDir =
        Inr (\<forall>f\<in>set (existingFilesOf entries). outputMtime fs outputDir f < mtime inputStats) \<and>
      needsExtraction fs inputPath outputDir =
        Inr (Max (outputMtime fs outputDir ` set (existingFilesOf entries)) < mtime inputStats) \<and>
      (needsExtraction fs inputPath outputDir = Inr False \<longleftrightarrow>
         (\<exists>f\<in>set (existingFilesOf entries). mtime inputStats \<le> outputMtime fs outputDir f))) \<and>
   (\<not> existsSync fs outputPath \<longrightarrow> needsExtractionFile fs inputPath outputPath = Inr True) \<and>
   (\<forall>inputStats outputStats.
      statSync fs inputPath = Inr inputStats \<and> statSync fs outputPath = Inr outputStats \<longrightarrow>
      needsExtractionFile fs inputPath outputPath = Inr (mtime inputStats > mtime outputStats))"
proof -
  have a: "\<not> existsSync fs outputDir \<Longrightarrow> needsExtraction fs inputPath outputDir = Inr True"
    by (simp add: needsExtraction_def)
  have b: "readdirSync fs outputDir = Inr entries \<Longrightarrow> existingFilesOf entries = [] \<Longrightarrow>
      needsExtraction fs inputPath outputDir = Inr True" for entries
    by (simp add: needsExtraction_def Let_def)
  have c: "needsExtraction fs inputPath outputDir =
        Inr (\<forall>f\<in>set (existingFilesOf entries). outputMtime fs outputDir f < mtime inputStats) \<and>
      needsExtraction fs inputPath outputDir =
        Inr (Max (outputMtime fs outputDir ` set (existingFilesOf entries)) < mtime inputStats) \<and>
      (needsExtraction fs inputPath outputDir = Inr False \<longleftrightarrow>
         (\<exists>f\<in>set (existingFilesOf entries). mtime inputStats \<le> outputMtime fs outputDir f))"
    if rd: "readdirSync fs outputDir = Inr entries" and ne: "existingFilesOf entries \<noteq> []"
      and src: "statSync fs inputPath = Inr inputStats" for entries inputStats
  proof -
    let ?S = "outputMtime fs outputDir ` set (existingFilesOf entries)"
    have fin: "finite ?S" and nonempty: "?S \<noteq> {}" using ne by simp_all
    have mx: "(Max ?S < mtime inputStats) =
        (\<forall>f\<in>set (existingFilesOf entries). outputMtime fs outputDir f < mtime inputStats)"
      using Max_less_iff [OF fin nonempty, of "mtime inputStats"] by auto
    show ?thesis
      using needsExtraction_listed [OF rd ne src] mx by (auto simp: not_less)
  qed
  have d: "\<not> existsSync fs outputPath \<Longrightarrow> needsExtractionFile fs inputPath outputPath = Inr True"
    by (simp add: needsExtractionFile_def)
  have e: "statSync fs inputPath = Inr inputStats \<Longrightarrow> statSync fs outputPath = Inr outputStats \<Longrightarrow>
      needsExtractionFile fs inputPath outputPath = Inr (mtime inputStats > mtime outputStats)"
    for inputStats outputStats
    by (auto simp: needsExtractionFile_def existsSync_def statSync_def split: option.splits)
  show ?thesis
    using a b c d e by blast
qed

theorem gate_stale_iff_witness:
  "needsExtraction ex_gate_fs ''/p/vid/a.mp4'' OUTPUT_DIR = Inr False \<and>
   needsExtraction ((''/p/vid/a.mp4'', ex_file 500) # ex_gate_fs) ''/p/vid/a.mp4'' OUTPUT_DIR =
     Inr True \<and>
   needsExtraction ex_gate_fs ''/p/vid/a.mp4'' ''/p/out'' = Inr True \<and>
   needsExtraction ex_gate_fs ''/p/vid/a.mp4'' ''/p/vid'' = Inr True \<and>
   needsExtractionFile ex_gate_fs ''/p/vid/a.mp4'' ''../src/assets/img/firstframe.webp'' =
     Inr True \<and>
   needsExtractionFile ex_gate_fs ''/p/vid/a.mp4'' ''../src/assets/img/logo.webp'' = Inr False"
proof -
  let ?fs2 = "(''/p/vid/a.mp4'', ex_file 500) # ex_gate_fs"
  let ?entries = "[''firstframe--9-0s.webp'', ''firstframe--1-5s.webp'', ''logo.webp'']"
  let ?existing = "[''firstframe--9-0s.webp'', ''firstframe--1-5s.webp'']"
  have rd: "readdirSync ex_gate_fs OUTPUT_DIR = Inr ?entries"
    by code_simp
  have rd2: "readdirSync ?fs2 OUTPUT_DIR = Inr ?entries"
    by code_simp
  have ex: "existingFilesOf ?entries = ?existing"
    by code_simp
  have ne: "existingFilesOf ?entries \<noteq> []"
    by (simp add: ex)
  have st: "statSync ex_gate_fs ''/p/vid/a.mp4'' = Inr (ex_file 100)"
    by code_simp
  have st2: "statSync ?fs2 ''/p/vid/a.mp4'' = Inr (ex_file 500)"
    by code_simp
  have m1: "outputMtime ex_gate_fs OUTPUT_DIR ''firstframe--9-0s.webp'' = 50"
    "outputMtime ex_gate_fs OUTPUT_DIR ''firstframe--1-5s.webp'' = 300"
    "outputMtime ?fs2 OUTPUT_DIR ''firstframe--9-0s.webp'' = 50"
    "outputMtime ?fs2 OUTPUT_DIR ''firstframe--1-5s.webp'' = 300"
    by code_simp+
  have mt: "mtime (ex_file t) = t" for t
    by (simp add: ex_file_def)
  have nodir: "\<not> existsSync ex_gate_fs ''/p/out''"
    by code_simp
  have rd3: "readdirSync ex_gate_fs ''/p/vid'' = Inr [''a.mp4'']"
    by code_simp
  have ex3: "existingFilesOf [''a.mp4''] = []"
    by code_simp
  have nofile: "\<not> existsSync ex_gate_fs ''../src/assets/img/firstframe.webp''"
    by code_simp
  have st3: "statSync ex_gate_fs ''../src/assets/img/logo.webp'' = Inr (ex_file 400)"
    by code_simp
  note T1 = gate_stale_iff [of ex_gate_fs OUTPUT_DIR "''/p/vid/a.mp4''"
      "''../src/assets/img/firstframe.webp''"]
  note T2 = gate_stale_iff [of ?fs2 OUTPUT_DIR "''/p/vid/a.mp4''"
      "''../src/assets/img/firstframe.webp''"]
  note T3 = gate_stale_iff [of ex_gate_fs "''/p/out''" "''/p/vid/a.mp4''"
      "''../src/assets/img/logo.webp''"]
  note T4 = gate_stale_iff [of ex_gate_fs "''/p/vid''" "''/p/vid/a.mp4''"
      "''../src/assets/img/logo.webp''"]
  note T1c = T1 [THEN conjunct2, THEN conjunct2, THEN conjunct1, THEN spec, THEN spec, THEN mp,
      OF conjI [OF rd conjI [OF ne st]], THEN conjunct1]
  note T2c = T2 [THEN conjunct2, THEN conjunct2, THEN conjunct1, THEN spec, THEN spec, THEN mp,
      OF conjI [OF rd2 conjI [OF ne st2]], THEN conjunct1]
  have a: "needsExtraction ex_gate_fs ''/p/vid/a.mp4'' OUTPUT_DIR = Inr False"
    using T1c by (simp add: ex m1 mt)
  have b: "needsExtraction ?fs2 ''/p/vid/a.mp4'' OUTPUT_DIR = Inr True"
    using T2c by (simp add: ex m1 mt)
  have c: "needsExtraction ex_gate_fs ''/p/vid/a.mp4'' ''/p/out'' = Inr True"
    using T3 [THEN conjunct1, THEN mp, OF nodir] .
  have d: "needsExtraction ex_gate_fs ''/p/vid/a.mp4'' ''/p/vid'' = Inr True"
    using T4 [THEN conjunct2, THEN conjunct1, THEN spec, THEN mp, OF conjI [OF rd3 ex3]] .
  have e: "needsExtractionFile ex_gate_fs ''/p/vid/a.mp4'' ''../src/assets/img/firstframe.webp''
      = Inr True"
    using T1 [THEN conjunct2, THEN conjunct2, THEN conjunct2, THEN conjunct1, THEN mp, OF nofile] .
  have f: "needsExtractionFile ex_gate_fs ''/p/vid/a.mp4'' ''../src/assets/img/logo.webp'' =
      Inr False"
    using T3 [THEN conjunct2, THEN conjunct2, THEN conjunct2, THEN conjunct2, THEN spec,
        THEN spec, THEN mp, OF conjI [OF st st3]]
    by (simp add: mt)
  show ?thesis
    using a b c d e f by (intro conjI)
qed

section \<open>Pipeline: a successful run\<close>

lemma stableFrame_on_missing:
  "\<not> existsSync fs fp \<Longrightarrow>
   stableFrame_on fs fp fn t ev q = q \<or> stableFrame_on fs fp fn t ev q \<in> {Resolved Failure}"
  by (cases ev; cases q) simp_all

lemma simpleFrame_on_missing:
  "\<not> existsSync fs fp \<Longrightarrow>
   simpleFrame_on fs fp fn t ev q = q \<or> simpleFrame_on fs fp fn t ev q \<in> {Resolved Failure}"
  by (cases ev; cases q) simp_all

lemma stableExtraction_Success:
  assumes "stableExtraction env w i outp t = (w', Resolved (Success fn ts))"
  shows "fn = ref_filename t \<and> ts = t \<and> existsSync (files w') (path_join (path_dirname outp) fn)"
proof -
  let ?fn = "OUTPUT_BASE_FILENAME @ ''--'' @ replace_dot (toFixed1 t) @ ''s.webp''"
  let ?fp = "path_join (path_dirname outp) ?fn"
  let ?sp = "spawn env w (Extract i t ?fp)"
  have r: "fn = ref_filename t \<and> ts = t"
    using stableExtraction_outcomes [of env w i outp t] assms by auto
  have f: "fst (stableExtraction env w i outp t) = fst ?sp"
    by (simp add: stableExtraction_def Let_def)
  have s: "snd (stableExtraction env w i outp t) =
      foldl (\<lambda>p ev. stableFrame_on (files (fst ?sp)) ?fp ?fn t ev p) Pending (events (snd ?sp))"
    by (simp add: stableExtraction_def Let_def)
  have w': "w' = fst ?sp"
    unfolding f [symmetric] using assms by simp
  have p: "foldl (\<lambda>p ev. stableFrame_on (files (fst ?sp)) ?fp ?fn t ev p)
      Pending (events (snd ?sp)) = Resolved (Success fn ts)"
    unfolding s [symmetric] using assms by simp
  have "existsSync (files (fst ?sp)) ?fp"
  proof (rule ccontr)
    assume "\<not> existsSync (files (fst ?sp)) ?fp"
    then have "foldl (\<lambda>p ev. stableFrame_on (files (fst ?sp)) ?fp ?fn t ev p) Pending
        (events (snd ?sp)) = Pending \<or>
      foldl (\<lambda>p ev. stableFrame_on (files (fst ?sp)) ?fp ?fn t ev p) Pending (events (snd ?sp))
        \<in> {Resolved Failure}"
      by (intro foldl_outcomes stableFrame_on_missing)
    then show False using p by simp
  qed
  then show ?thesis using r w' outputFilename_ref [of t] by simp
qed

lemma extractSimpleFrame_Success:
  assumes "extractSimpleFrame env w i outp vi t = (w', Resolved (Success fn ts))"
  shows "fn = ref_filename t \<and> ts = t \<and> existsSync (files w') (path_join (path_dirname outp) fn)"
proof -
  let ?fn = "OUTPUT_BASE_FILENAME @ ''--'' @ replace_dot (toFixed1 t) @ ''s.webp''"
  let ?fp = "path_join (path_dirname outp) ?fn"
  let ?sp = "spawn env w (Extract i t ?fp)"
  have r: "fn = ref_filename t \<and> ts = t"
    using extractSimpleFrame_outcomes [of env w i outp vi t] assms by auto
  have f: "fst (extractSimpleFrame env w i outp vi t) = fst ?sp"
    by (simp add: extractSimpleFrame_def Let_def)
  have s: "snd (extractSimpleFrame env w i outp vi t) =
      foldl (\<lambda>p ev. simpleFrame_on (files (fst ?sp)) ?fp ?fn t ev p) Pending (events (snd ?sp))"
    by (simp add: extractSimpleFrame_def Let_def)
  have w': "w' = fst ?sp"
    unfolding f [symmetric] using assms by simp
  have p: "foldl (\<lambda>p ev. simpleFrame_on (files (fst ?sp)) ?fp ?fn t ev p)
      Pending (events (snd ?sp)) = Resolved (Success fn ts)"
    unfolding s [symmetric] using assms by simp
  have "existsSync (files (fst ?sp)) ?fp"
  proof (rule ccontr)
    assume "\<not> existsSync (files (fst ?sp)) ?fp"
    then have "foldl (\<lambda>p ev. simpleFrame_on (files (fst ?sp)) ?fp ?fn t ev p) Pending
        (events (snd ?sp)) = Pending \<or>
      foldl (\<lambda>p ev. simpleFrame_on (files (fst ?sp)) ?fp ?fn t ev p) Pending (events (snd ?sp))
        \<in> {Resolved Failure}"
      by (intro foldl_outcomes simpleFrame_on_missing)
    then show False using p by simp
  qed
  then show ?thesis using r w' outputFilename_ref [of t] by simp
qed

lemma extractStableFrame_Success:
  assumes "extractStableFrame env w i outp vi = (w', Resolved (Success fn ts))"
  shows "fn = ref_filename ts \<and> existsSync (files w') (path_join (path_dirname outp) fn)"
proof (cases "snd (selectStableTimestamp env w i vi)")
  case Pending
  then show ?thesis using assms by (simp add: extractStableFrame_Pending)
next
  case (Rejected err)
  then show ?thesis
    using assms extractSimpleFrame_Success [of env "fst (selectStableTimestamp env w i vi)" i outp vi 2 w' fn ts]
    by (auto simp: extractStableFrame_Rejected)
next
  case (Resolved t)
  then show ?thesis
    using assms stableExtraction_Success [of env "fst (selectStableTimestamp env w i vi)" i outp t w' fn ts]
    by (auto simp: extractStableFrame_Resolved)
qed

lemma extractFoundVideo_Completed:
  assumes "extractFoundVideo env w v = (w', Completed fn ts)"
  shows "fn = ref_filename ts \<and>
         existsSync (files w') (path_join (path_dirname (path_join OUTPUT_DIR ''temp.webp'')) fn)"
proof -
  let ?w1 = "w\<lparr>files := ensureDirectoryExists (clock env) (files w) OUTPUT_DIR\<rparr>"
  let ?pr = "getVideoInfo env ?w1 v"
  from assms obtain info where info: "snd ?pr = Resolved info"
    and ex: "extractStableFrame env (fst ?pr) v (path_join OUTPUT_DIR ''temp.webp'') info =
             (w', Resolved (Success fn ts))"
    by (auto simp: extractFoundVideo_def Let_def prod_eq_iff
        split: sum.splits bool.splits promise.splits extract_result.splits)
  from extractStableFrame_Success [OF ex] show ?thesis .
qed

lemma output_path_eq:
  "path_join (path_dirname (path_join OUTPUT_DIR ''temp.webp'')) fn = path_join OUTPUT_DIR fn"
  by (simp add: path_join_def path_dirname_def strip_slash_def OUTPUT_DIR_def)

lemma ref_filename_no_slash: "CHR ''/'' \<notin> set (ref_filename t)"
proof -
  have "CHR ''/'' \<notin> set (nat_to_string n)" for n
    using nat_to_string_digits [of n] by auto
  moreover have "CHR ''/'' \<noteq> digit_char n" for n
    using digit_char_in [of n] by auto
  ultimately show ?thesis
    by (simp add: ref_filename_def Let_def)
qed

lemma ref_filename_nonempty: "ref_filename t \<noteq> []"
  by (simp add: ref_filename_def Let_def)

lemma ref_filename_matches:
  "startsWith (ref_filename t) OUTPUT_BASE_FILENAME \<and> endsWith (ref_filename t) ''.webp''"
proof -
  obtain pre where pre: "ref_filename t = pre @ ''.webp''"
    by (simp add: ref_filename_def Let_def)
  have "endsWith (ref_filename t) ''.webp''"
    unfolding pre by (simp add: endsWith_def)
  moreover have "startsWith (ref_filename t) OUTPUT_BASE_FILENAME"
    by (simp add: ref_filename_def Let_def startsWith_def OUTPUT_BASE_FILENAME_def)
  ultimately show ?thesis by simp
qed

section \<open>Pipeline: the second run\<close>

lemma checkFFmpeg_calls: "checkFFmpeg env w = (w', p) \<Longrightarrow> calls w' = calls w @ [Version]"
  by (auto simp: checkFFmpeg_def spawn_def Let_def)

lemma findFirstVideoFile_exists:
  "findFirstVideoFile fs dir = Inr r \<Longrightarrow> existsSync fs dir"
  by (simp add: findFirstVideoFile.simps [of fs dir] readdirSync_def existsSync_def
      split: option.splits if_splits)

lemma gate_not_stale:
  assumes src: "statSync fs videoFile = Inr inputStats"
    and out: "statSync fs (path_join OUTPUT_DIR (ref_filename ts)) = Inr outputStats"
    and unchanged: "mtime inputStats \<le> mtime outputStats"
    and dir: "readdirSync fs OUTPUT_DIR = Inr entries"
  shows "needsExtraction fs videoFile OUTPUT_DIR = Inr False \<and>
         ref_filename ts \<in> set (existingFilesOf entries)"
proof -
  have lk: "fs_lookup fs (path_join OUTPUT_DIR (ref_filename ts)) = Some outputStats"
    using out by (simp add: statSync_def split: option.splits)
  have "ref_filename ts \<in> set entries"
    using readdir_entry [OF dir, of "ref_filename ts"] lk
    by (simp add: ref_filename_no_slash ref_filename_nonempty)
  then have mem: "ref_filename ts \<in> set (existingFilesOf entries)"
    using ref_filename_matches [of ts] by (simp add: existingFilesOf_def)
  then have ne: "existingFilesOf entries \<noteq> []" by auto
  have om: "outputMtime fs OUTPUT_DIR (ref_filename ts) = mtime outputStats"
    by (simp add: outputMtime_def lk)
  have "\<not> (\<forall>f\<in>set (existingFilesOf entries). outputMtime fs OUTPUT_DIR f < mtime inputStats)"
    using mem om unchanged by force
  then have "needsExtraction fs videoFile OUTPUT_DIR = Inr False"
    using needsExtraction_listed [OF dir ne src] by simp
  then show ?thesis using mem by simp
qed

lemma extractFoundVideo_UpToDate:
  assumes gate: "needsExtraction (files w) videoFile OUTPUT_DIR = Inr False"
    and dir: "readdirSync (files w) OUTPUT_DIR = Inr entries"
  shows "extractFoundVideo env w videoFile = (w, UpToDate)"
proof -
  have "ensureDirectoryExists (clock env) (files w) OUTPUT_DIR = files w"
    using readdir_exists [OF dir] by (simp add: ensureDirectoryExists_def)
  then show ?thesis
    using gate by (simp add: extractFoundVideo_def Let_def)
qed

lemma extractVideoThumbnail_Completed:
  assumes "extractVideoThumbnail env w = (w', Completed fn ts)"
  shows "fn = ref_filename ts \<and> existsSync (files w') (path_join OUTPUT_DIR fn)"
proof -
  let ?ck = "checkFFmpeg env w"
  from assms obtain v where "extractFoundVideo env (fst ?ck) v = (w', Completed fn ts)"
    by (auto simp: extractVideoThumbnail_def Let_def
        split: promise.splits if_splits sum.splits option.splits)
  from extractFoundVideo_Completed [OF this] show ?thesis
    unfolding output_path_eq .
qed

lemma extractVideoThumbnail_found:
  assumes ver: "checkFFmpeg env w = (w', Resolved True)"
    and found: "findFirstVideoFile (files w') INPUT_DIR = Inr (Some videoFile)"
  shows "extractVideoThumbnail env w = extractFoundVideo env w' videoFile"
  using findFirstVideoFile_exists [OF found]
  by (simp add: extractVideoThumbnail_def Let_def ver found)

text \<open>
  Claim C9, as the code has it. Every run of \<^verbatim>\<open>extractVideoThumbnail\<close> starts the engine
  once, for the query \<^verbatim>\<open>ffmpeg -version\<close> of \<^verbatim>\<open>checkFFmpeg\<close>, before it reaches the gate; so
  does a second run. After a run that completed with an output file, let the second run find
  the engine and a video file, and let that source be not newer than the output of the first
  run (it is unchanged since the run) where the output directory can be listed. Then the
  gate reports not stale and the second run ends as up to date: the version query is its
  only invocation of the engine, with no probe, sampling, scoring or extraction, and the
  file system is as the query left it. The output file of the first run, named after its
  timestamp, is among the outputs the gate finds.
\<close>

theorem second_run_up_to_date:
  assumes first: "extractVideoThumbnail env w = (w1, Completed filename ts)"
    and ver: "checkFFmpeg env w1 = (w2, Resolved True)"
    and found: "findFirstVideoFile (files w2) INPUT_DIR = Inr (Some videoFile)"
    and src: "statSync (files w2) videoFile = Inr inputStats"
    and out: "statSync (files w2) (path_join OUTPUT_DIR filename) = Inr outputStats"
    and unchanged: "mtime inputStats \<le> mtime outputStats"
    and dir: "readdirSync (files w2) OUTPUT_DIR = Inr entries"
  shows "needsExtraction (files w2) videoFile OUTPUT_DIR = Inr False \<and>
         extractVideoThumbnail env w1 = (w2, UpToDate) \<and>
         calls w2 = calls w1 @ [Version] \<and>
         filename = ref_filename ts \<and>
         filename \<in> set (existingFilesOf entries)"
proof -
  have fn: "filename = ref_filename ts"
    using extractVideoThumbnail_Completed [OF first] by simp
  have g: "needsExtraction (files w2) videoFile OUTPUT_DIR = Inr False \<and>
      ref_filename ts \<in> set (existingFilesOf entries)"
    using src out [unfolded fn] unchanged dir by (rule gate_not_stale)
  have "extractFoundVideo env w2 videoFile = (w2, UpToDate)"
    using g [THEN conjunct1] dir by (rule extractFoundVideo_UpToDate)
  then have run: "extractVideoThumbnail env w1 = (w2, UpToDate)"
    by (simp only: extractVideoThumbnail_found [OF ver found])
  have log: "calls w2 = calls w1 @ [Version]"
    using ver by (rule checkFFmpeg_calls)
  show ?thesis using g run log fn by simp
qed

theorem second_run_up_to_date_witness:
  "snd (extractVideoThumbnail ex_env ex_run_world) = Completed ''firstframe--1-5s.webp'' 1.5 \<and>
   findFirstVideoFile (files (fst (extractVideoThumbnail ex_env ex_run_world))) INPUT_DIR =
     Inr (Some ''./vid/reel/showreel.MP4'') \<and>
   needsExtraction (files (fst (extractVideoThumbnail ex_env ex_run_world)))
     ''./vid/reel/showreel.MP4'' OUTPUT_DIR = Inr False \<and>
   snd (extractVideoThumbnail ex_env (fst (extractVideoThumbnail ex_env ex_run_world))) =
     UpToDate \<and>
   calls (fst (extractVideoThumbnail ex_env (fst (extractVideoThumbnail ex_env ex_run_world)))) =
     calls (fst (extractVideoThumbnail ex_env ex_run_world)) @ [Version] \<and>
   files (fst (extractVideoThumbnail ex_env (fst (extractVideoThumbnail ex_env ex_run_world)))) =
     files (fst (extractVideoThumbnail ex_env ex_run_world)) \<and>
   ''firstframe--1-5s.webp'' = ref_filename 1.5"
proof -
  let ?v = "''./vid/reel/showreel.MP4''"
  let ?w1 = "fst (extractVideoThumbnail ex_env ex_run_world)"
  let ?w2 = "fst (checkFFmpeg ex_env ?w1)"
  have a: "snd (extractVideoThumbnail ex_env ex_run_world) =
      Completed ''firstframe--1-5s.webp'' 1.5"
    by code_simp
  have first: "extractVideoThumbnail ex_env ex_run_world =
      (?w1, Completed ''firstframe--1-5s.webp'' 1.5)"
    unfolding a [symmetric] by (rule prod.collapse [symmetric])
  have ver: "checkFFmpeg ex_env ?w1 = (?w2, Resolved True)"
    by code_simp
  have fs2: "files ?w2 = files ?w1"
    by code_simp
  have found: "findFirstVideoFile (files ?w2) INPUT_DIR = Inr (Some ?v)"
    by code_simp
  have src: "statSync (files ?w2) ?v = Inr (ex_file 100)"
    by code_simp
  have out: "statSync (files ?w2) (path_join OUTPUT_DIR ''firstframe--1-5s.webp'') =
      Inr (ex_file 300)"
    by code_simp
  have unchanged: "mtime (ex_file 100) \<le> mtime (ex_file 300)"
    by (simp add: ex_file_def)
  have dir: "readdirSync (files ?w2) OUTPUT_DIR = Inr [''firstframe--1-5s.webp'']"
    by code_simp
  note T = second_run_up_to_date [OF first ver found src out unchanged dir]
  have run: "extractVideoThumbnail ex_env ?w1 = (?w2, UpToDate)"
    using T by (rule conjunct2 [THEN conjunct1])
  have b: "snd (extractVideoThumbnail ex_env ?w1) = UpToDate"
    unfolding run snd_conv ..
  have w2: "fst (extractVideoThumbnail ex_env ?w1) = ?w2"
    unfolding run fst_conv ..
  have c: "calls (fst (extractVideoThumbnail ex_env ?w1)) = calls ?w1 @ [Version]"
    unfolding w2 using T by (rule conjunct2 [THEN conjunct2, THEN conjunct1])
  have d: "files (fst (extractVideoThumbnail ex_env ?w1)) = files ?w1"
    unfolding w2 by (rule fs2)
  have e: "''firstframe--1-5s.webp'' = ref_filename 1.5"
    using T by (rule conjunct2 [THEN conjunct2, THEN conjunct2, THEN conjunct1])
  have f: "findFirstVideoFile (files ?w1) INPUT_DIR = Inr (Some ?v)"
    using found unfolding fs2 .
  have g: "needsExtraction (files ?w1) ?v OUTPUT_DIR = Inr False"
    using T [THEN conjunct1] unfolding fs2 .
  show ?thesis using a f g b c d e by (intro conjI)
qed

text \<open>
  The second run does invoke the engine: its log of invocations is that of the first run
  and the version query.
\<close>

theorem second_run_invokes_engine_counterexample:
  "snd (extractVideoThumbnail ex_env ex_run_world) = Completed ''firstframe--1-5s.webp'' 1.5 \<and>
   snd (extractVideoThumbnail ex_env (fst (extractVideoThumbnail ex_env ex_run_world))) =
     UpToDate \<and>
   calls (fst (extractVideoThumbnail ex_env (fst (extractVideoThumbnail ex_env ex_run_world)))) =
     calls (fst (extractVideoThumbnail ex_env ex_run_world)) @ [Version] \<and>
   calls (fst (extractVideoThumbnail ex_env (fst (extractVideoThumbnail ex_env ex_run_world)))) \<noteq>
     calls (fst (extractVideoThumbnail ex_env ex_run_world))"
  by code_simp

section \<open>The reduction selects the first minimum\<close>




text \<open>
  The hypothesis that the scores are numbers is needed. A capture without a digit, as in a
  path printed by the engine, is read as \<open>NaN\<close>; every comparison with \<open>NaN\<close> is false, so
  the reduction keeps a leading \<open>NaN\<close> whatever follows.
\<close>

lemma digitless_capture_is_NaN:
  "ssim_match ''from All:.x/frame_001.jpg'' = Some ''.'' \<and> parseFloat ''.'' = NaN \<and>
   js_sub (Num 1) NaN = NaN"
  by (simp add: startsWith_def is_ssim_char_def is_digit_def parseFloat_def)

lemma reduce_keeps_leading_NaN:
  "reduceStable
     [\<lparr>timestamp = 1, score = NaN, frameIndex = 1\<rparr>,
      \<lparr>timestamp = 1.5, score = Num 0.1, frameIndex = 2\<rparr>] =
   Some \<lparr>timestamp = 1, score = NaN, frameIndex = 1\<rparr>"
  by (simp add: reduceStable_def)

section \<open>The scoring loop follows the adjacent pairs\<close>




section \<open>Stability selector: the selection\<close>













end
